theory Spec2Isabelle
  imports Main "HOL-Library.List_Lexorder" "HOL-Library.Char_ord" "HOL-Library.Sublist"
begin

section \<open>Strings\<close>

text \<open>
  JavaScript strings are modelled as \<open>string\<close> (lists of 8-bit characters), so the
  model covers ASCII text: \<open>toLowerCase\<close> maps \<open>A..Z\<close> to \<open>a..z\<close> and leaves every
  other character alone, and the white space of \<open>trim\<close> and of the regular expression
  class \<open>\s\<close> is TAB, LF, VT, FF, CR and SPACE.
\<close>

definition lower_char :: "char \<Rightarrow> char" where
  "lower_char c =
     (let n = (of_char c :: nat) in if 65 \<le> n \<and> n \<le> 90 then char_of (n + 32) else c)"

definition toLowerCase :: "string \<Rightarrow> string" where
  "toLowerCase s = map lower_char s"

definition is_space :: "char \<Rightarrow> bool" where
  "is_space c = ((of_char c :: nat) \<in> {9, 10, 11, 12, 13, 32})"

definition trim :: "string \<Rightarrow> string" where
  "trim s = rev (dropWhile is_space (rev (dropWhile is_space s)))"

text \<open>A value is falsy in a condition when it is \<open>undefined\<close> or the empty string.\<close>

definition truthy :: "string option \<Rightarrow> bool" where
  "truthy v = (case v of None \<Rightarrow> False | Some s \<Rightarrow> s \<noteq> [])"

text \<open>\<open>a || b\<close> on two optional strings.\<close>

definition js_or :: "string option \<Rightarrow> string option \<Rightarrow> string option" where
  "js_or a b = (if truthy a then a else b)"

text \<open>\<open>v || ''\<close>.\<close>

definition or_empty :: "string option \<Rightarrow> string" where
  "or_empty v = (case v of None \<Rightarrow> [] | Some s \<Rightarrow> s)"

section \<open>Rate limiter (\<open>checkArchiveRateLimit\<close>)\<close>

text \<open>
  \<open>archiveRateLimit\<close> is a \<open>Map\<close> from the key to an array of \<open>Date.now()\<close> values
  (milliseconds). The clock reading is an argument. \<open>maxRequests\<close> is a local
  constant of the function: \<open>5\<close> in \<open>server/index.js\<close> and \<open>30\<close> in the variant
  \<open>unnamed/part_000\<close>; it is an argument here and the two constants follow.
\<close>

type_synonym rate_map = "string \<rightharpoonup> int list"

definition windowMs :: int where
  "windowMs = 10 * 60 * 1000"

definition maxRequests_index :: nat where
  "maxRequests_index = 5"

definition maxRequests_part_000 :: nat where
  "maxRequests_part_000 = 30"

definition rate_key :: "string \<Rightarrow> string" where
  "rate_key email = trim (toLowerCase email)"

definition stamps :: "rate_map \<Rightarrow> string \<Rightarrow> int list" where
  "stamps m key = (case m key of None \<Rightarrow> [] | Some ts \<Rightarrow> ts)"

definition checkArchiveRateLimit :: "nat \<Rightarrow> int \<Rightarrow> string \<Rightarrow> rate_map \<Rightarrow> bool \<times> rate_map" where
  "checkArchiveRateLimit maxRequests now email m =
     (let key = rate_key email;
          m1 = (if m key = None then m(key \<mapsto> []) else m);
          timestamps = filter (\<lambda>t. now - t < windowMs) (stamps m1 key)
      in if length timestamps \<ge> maxRequests
         then (False, m1(key \<mapsto> timestamps))
         else (True, m1(key \<mapsto> timestamps @ [now])))"

text \<open>
  A sequence of calls, each with its own clock reading and its own spelling of the
  email; the answers are returned in order with the final map.
\<close>

fun run_checks :: "nat \<Rightarrow> (int \<times> string) list \<Rightarrow> rate_map \<Rightarrow> bool list \<times> rate_map" where
  "run_checks maxRequests [] m = ([], m)"
| "run_checks maxRequests ((now, email) # rs) m =
     (let (ok, m1) = checkArchiveRateLimit maxRequests now email m;
          (oks, m2) = run_checks maxRequests rs m1
      in (ok # oks, m2))"

section \<open>JavaScript values used by the handlers\<close>

text \<open>A thrown \<open>Error\<close>: its \<open>name\<close> and its \<open>message\<close>.\<close>

datatype js_error = JsError (err_name: string) (err_message: string)

text \<open>\<open>String(error)\<close>, as \<open>Error.prototype.toString\<close> computes it.\<close>

definition error_to_string :: "js_error \<Rightarrow> string" where
  "error_to_string e =
     (if err_name e = [] then err_message e
      else if err_message e = [] then err_name e
      else err_name e @ '': '' @ err_message e)"

text \<open>Decimal rendering of a number inside a template literal.\<close>

fun show_nat :: "nat \<Rightarrow> string" where
  "show_nat n =
     (if n < 10 then [char_of (48 + n)] else show_nat (n div 10) @ [char_of (48 + n mod 10)])"

text \<open>
  A \<open>Set\<close> of strings keeps insertion order: \<open>add\<close> appends a value that is not yet
  a member, and \<open>new Set(array)\<close> adds the elements of the array in order.
\<close>

definition set_add :: "string \<Rightarrow> string list \<Rightarrow> string list" where
  "set_add x s = (if x \<in> set s then s else s @ [x])"

definition new_Set :: "string list \<Rightarrow> string list" where
  "new_Set xs = fold set_add xs []"

text \<open>
  Reading a property of an object literal: an own property, a property inherited from
  \<open>Object.prototype\<close> (a function or object, truthy and without \<open>forEach\<close>), or
  \<open>undefined\<close>. In a literal with computed keys a later entry replaces an earlier one
  with the same key, and the key computed from an unset environment variable is the
  string \<open>undefined\<close>.
\<close>

datatype 'a property = Absent | Own 'a | Inherited

definition object_prototype_names :: "string list" where
  "object_prototype_names =
     [''constructor'', ''__proto__'', ''hasOwnProperty'', ''isPrototypeOf'',
      ''propertyIsEnumerable'', ''toLocaleString'', ''toString'', ''valueOf'',
      ''__defineGetter__'', ''__defineSetter__'', ''__lookupGetter__'', ''__lookupSetter__'']"

definition object_literal :: "(string \<times> 'a) list \<Rightarrow> string \<Rightarrow> 'a property" where
  "object_literal entries k =
     (case map_of (rev entries) k of
        Some v \<Rightarrow> Own v
      | None \<Rightarrow> if k \<in> set object_prototype_names then Inherited else Absent)"

definition prop_key :: "string option \<Rightarrow> string" where
  "prop_key v = (case v of None \<Rightarrow> ''undefined'' | Some s \<Rightarrow> s)"

section \<open>Catalog Mapping\<close>

text \<open>The four price identifiers come from the process environment.\<close>

record config =
  PRICE_ID_FULL_DAY :: "string option"
  PRICE_ID_PRACTICAL_AI_ARCHITECTURE :: "string option"
  PRICE_ID_IMAGE_GEN_AI :: "string option"
  PRICE_ID_GOOGLE_HP_GAS :: "string option"

text \<open>
  The display names are fixed non-empty (Japanese) strings; they are named here by the
  ticket they belong to.
\<close>

datatype product = FullDayTicket | PracticalAiArchitectureSeminar | ImageGenAiSeminar | GoogleHpGasSeminar

definition PRODUCT_NAME_MAP :: "config \<Rightarrow> (string \<times> product) list" where
  "PRODUCT_NAME_MAP cfg =
     [(prop_key (PRICE_ID_FULL_DAY cfg), FullDayTicket),
      (prop_key (PRICE_ID_PRACTICAL_AI_ARCHITECTURE cfg), PracticalAiArchitectureSeminar),
      (prop_key (PRICE_ID_IMAGE_GEN_AI cfg), ImageGenAiSeminar),
      (prop_key (PRICE_ID_GOOGLE_HP_GAS cfg), GoogleHpGasSeminar)]"

definition ZOOM_LINK_MAP :: "config \<Rightarrow> (string \<times> string list) list" where
  "ZOOM_LINK_MAP cfg =
     [(prop_key (PRICE_ID_FULL_DAY cfg), [''A'', ''B'', ''C'', ''D'', ''E'', ''F'']),
      (prop_key (PRICE_ID_PRACTICAL_AI_ARCHITECTURE cfg), [''C'', ''F'']),
      (prop_key (PRICE_ID_IMAGE_GEN_AI cfg), [''D'', ''F'']),
      (prop_key (PRICE_ID_GOOGLE_HP_GAS cfg), [''E'', ''F''])]"

definition CIRCLE_PRODUCT_ID :: string where
  "CIRCLE_PRODUCT_ID = ''prod_TA2S72xlZ4teEN''"

definition ARCHIVE_SESSION_MAP :: "config \<Rightarrow> (string \<times> string list) list" where
  "ARCHIVE_SESSION_MAP cfg =
     [(prop_key (PRICE_ID_FULL_DAY cfg), [''A'', ''B'', ''C'', ''D'', ''E1'', ''E2'', ''F'']),
      (prop_key (PRICE_ID_PRACTICAL_AI_ARCHITECTURE cfg), [''A'', ''B'', ''C'', ''F'']),
      (prop_key (PRICE_ID_IMAGE_GEN_AI cfg), [''A'', ''B'', ''D'', ''F'']),
      (prop_key (PRICE_ID_GOOGLE_HP_GAS cfg), [''A'', ''B'', ''E1'', ''E2'', ''F''])]"

text \<open>The array literal \<open>['A', 'B', 'C', 'D', 'E1', 'E2', 'F']\<close> of the archive handler.\<close>

definition ALL_SESSION_KEYS :: "string list" where
  "ALL_SESSION_KEYS = [''A'', ''B'', ''C'', ''D'', ''E1'', ''E2'', ''F'']"

section \<open>Billing provider data\<close>

text \<open>
  A line item, of a checkout session or of a subscription: \<open>item.price?.id\<close> and
  \<open>item.price?.product\<close>.
\<close>

record line_item =
  price_id :: "string option"
  price_product :: "string option"

record checkout_session =
  session_id :: string
  customer_details_email :: "string option"
  customer_email :: "string option"
  payment_status :: string

record event =
  event_id :: string
  event_type :: string
  event_object :: checkout_session

section \<open>Webhook: persisted state and effects\<close>

type_synonym zoom_meetings = "(string \<times> string) list"

text \<open>
  The arguments of \<open>generateEmailContent\<close>: the product name (a display name, or the
  inherited value when the lookup hit \<open>Object.prototype\<close>), the sorted meeting keys and
  the Zoom meeting table. The HTML built from them is not modelled.
\<close>

datatype email_content = EmailContent "product property" "string list" zoom_meetings

record failed_email =
  fe_email :: string
  fe_product_name :: "product property"
  fe_error :: string
  fe_timestamp :: string

text \<open>
  What a handler does to the outside world, in order: file reads and writes, provider
  calls, every POST to the mail transport and every backoff wait (\<open>None\<close> is
  \<open>setTimeout\<close> with an \<open>undefined\<close> delay). \<open>Dispatch\<close> marks one invocation of
  \<open>sendEmailWithRetry\<close>.
\<close>

datatype effect =
    ReadProcessedEvents
  | WriteProcessedEvents
  | StripeListLineItems string
  | ReadZoomMeetings
  | Dispatch string
  | SendGridPost string email_content
  | Sleep "nat option"
  | WriteFailedEmails

text \<open>
  The data directory (\<open>data_dir\<close>: whether \<open>DATA_DIR\<close> exists), the two JSON files in
  it (\<open>None\<close>: the file does not exist) and the trace of effects. A file exists only
  in an existing directory. The files are taken to hold well-formed JSON; writing a
  file into a directory that does not exist throws, and no other failure of the file
  system is modelled.
\<close>

record world =
  data_dir :: bool
  processed_events_json :: "string list option"
  failed_emails_json :: "failed_email list option"
  effects :: "effect list"

definition emit :: "effect list \<Rightarrow> world \<Rightarrow> world" where
  "emit es w = w\<lparr>effects := effects w @ es\<rparr>"

definition loadProcessedEvents :: "world \<Rightarrow> string list" where
  "loadProcessedEvents w =
     (case processed_events_json w of None \<Rightarrow> new_Set [] | Some processed \<Rightarrow> new_Set processed)"

text \<open>\<open>saveProcessedEvent\<close> creates the data directory when it is missing, then writes.\<close>

definition saveProcessedEvent :: "string \<Rightarrow> world \<Rightarrow> world" where
  "saveProcessedEvent eventId w =
     (let processed = set_add eventId (loadProcessedEvents w);
          w1 = (if \<not> data_dir w then w\<lparr>data_dir := True\<rparr> else w)
      in emit [ReadProcessedEvents, WriteProcessedEvents] (w1\<lparr>processed_events_json := Some processed\<rparr>))"

text \<open>The error of \<open>fs.writeFileSync\<close> on a path whose directory does not exist.\<close>

definition ENOENT :: js_error where
  "ENOENT = JsError ''Error'' ''ENOENT: no such file or directory, open failed_emails.json''"

text \<open>
  \<open>recordFailedEmail\<close> writes without creating the directory: when the data
  directory is missing the write throws and nothing is recorded. The first component
  is the error thrown, if any.
\<close>

definition recordFailedEmail :: "string \<Rightarrow> string \<Rightarrow> product property \<Rightarrow> js_error \<Rightarrow> world
    \<Rightarrow> js_error option \<times> world" where
  "recordFailedEmail timestamp email productName error w =
     (let failed = (case failed_emails_json w of None \<Rightarrow> [] | Some fs \<Rightarrow> fs);
          entry = \<lparr>fe_email = email, fe_product_name = productName,
                   fe_error = (if err_message error \<noteq> [] then err_message error else error_to_string error),
                   fe_timestamp = timestamp\<rparr>
      in if \<not> data_dir w then (Some ENOENT, w)
         else (None, emit [WriteFailedEmails] (w\<lparr>failed_emails_json := Some (failed @ [entry])\<rparr>)))"

section \<open>Notification Dispatcher (\<open>sendEmailWithRetry\<close>)\<close>

text \<open>
  One \<open>fetch\<close> of the SendGrid endpoint either rejects, or resolves to a response with
  a status (\<open>response.ok\<close> is a status from 200 to 299) whose \<open>text()\<close> yields the body
  or rejects in turn.
\<close>

datatype fetch_result = Responded nat "js_error + string" | FetchFailed js_error

text \<open>One pass through the \<open>try\<close> block: \<open>None\<close> when it returns \<open>true\<close>, else the error caught.\<close>

definition try_send :: "fetch_result \<Rightarrow> js_error option" where
  "try_send r =
     (case r of
        FetchFailed e \<Rightarrow> Some e
      | Responded status text \<Rightarrow>
          if (200 \<le> status \<and> status \<le> 299) \<or> status = 202 then None
          else (case text of
                  Inl e \<Rightarrow> Some e
                | Inr t \<Rightarrow> Some (JsError ''Error'' (''SendGrid API Error: '' @ show_nat status @ '' '' @ t))))"

definition delays :: "nat list" where
  "delays = [1000, 2000, 4000]"

text \<open>\<open>delays[attempt]\<close>; reading past the end of the array gives \<open>undefined\<close>.\<close>

definition delay_at :: "nat \<Rightarrow> nat option" where
  "delay_at attempt = (if attempt < length delays then Some (delays ! attempt) else None)"

datatype send_result = Returned_true | Returned_undefined | Thrown js_error

text \<open>
  The \<open>for\<close> loop from a given value of \<open>attempt\<close>. The transport is a function of the
  attempt number. The result is what the call returns or throws, with its effects.
\<close>

function send_loop :: "(nat \<Rightarrow> fetch_result) \<Rightarrow> string \<Rightarrow> email_content \<Rightarrow> nat \<Rightarrow> nat
    \<Rightarrow> send_result \<times> effect list" where
  "send_loop transport to htmlContent maxRetries attempt =
     (if attempt < maxRetries then
        (case try_send (transport attempt) of
           None \<Rightarrow> (Returned_true, [SendGridPost to htmlContent])
         | Some error \<Rightarrow>
             if attempt < maxRetries - 1 then
               (let (r, es) = send_loop transport to htmlContent maxRetries (attempt + 1)
                in (r, SendGridPost to htmlContent # Sleep (delay_at attempt) # es))
             else (Thrown error, [SendGridPost to htmlContent]))
      else (Returned_undefined, []))"
  by pat_completeness auto
termination
  by (relation "measure (\<lambda>(transport, to, htmlContent, maxRetries, attempt). maxRetries - attempt)") auto

definition sendEmailWithRetry :: "(nat \<Rightarrow> fetch_result) \<Rightarrow> string \<Rightarrow> email_content \<Rightarrow> nat
    \<Rightarrow> send_result \<times> effect list" where
  "sendEmailWithRetry transport to htmlContent maxRetries =
     (let (r, es) = send_loop transport to htmlContent maxRetries 0 in (r, Dispatch to # es))"

section \<open>Webhook Processor\<close>

text \<open>
  The collaborators of one webhook delivery: signature verification
  (\<open>stripe.webhooks.constructEvent\<close> on the raw body and the \<open>stripe-signature\<close>
  header, which may be missing), the line items of a session, the Zoom meeting table
  on disk, the mail transport and the clock.
\<close>

record webhook_env =
  constructEvent :: "string \<Rightarrow> string option \<Rightarrow> js_error + event"
  listLineItems :: "string \<Rightarrow> js_error + line_item list"
  loadZoomMeetings :: zoom_meetings
  transport :: "nat \<Rightarrow> fetch_result"
  toISOString :: string

text \<open>
  The loop of \<open>handleCheckoutCompleted\<close> over the purchased price ids, on the pair
  \<open>(productName, meetingKeys)\<close>. A price id that names an inherited property makes
  \<open>keys.forEach\<close> throw a \<open>TypeError\<close>.
\<close>

fun collect_keys :: "(string \<times> product) list \<Rightarrow> (string \<times> string list) list \<Rightarrow> string list
    \<Rightarrow> product property \<times> string list \<Rightarrow> js_error + product property \<times> string list" where
  "collect_keys names links [] acc = Inr acc"
| "collect_keys names links (priceId # rest) (productName, meetingKeys) =
     (let name = object_literal names priceId;
          keys = object_literal links priceId;
          productName1 = (if name \<noteq> Absent then name else productName)
      in case keys of
           Absent \<Rightarrow> collect_keys names links rest (productName1, meetingKeys)
         | Own ks \<Rightarrow> collect_keys names links rest (productName1, fold set_add ks meetingKeys)
         | Inherited \<Rightarrow> Inl (JsError ''TypeError'' ''keys.forEach is not a function''))"

text \<open>
  From the purchased price ids to the arguments of the notification: \<open>None\<close> when the
  purchase is skipped, else the product name and \<open>sortedKeys\<close>.
\<close>

definition checkout_notification :: "(string \<times> product) list \<Rightarrow> (string \<times> string list) list
    \<Rightarrow> string list \<Rightarrow> js_error + (product property \<times> string list) option" where
  "checkout_notification names links purchasedPriceIds =
     (case collect_keys names links purchasedPriceIds (Absent, []) of
        Inl e \<Rightarrow> Inl e
      | Inr (productName, meetingKeys) \<Rightarrow>
          if productName = Absent \<or> length meetingKeys = 0 then Inr None
          else Inr (Some (productName, sort (set_add ''F'' meetingKeys))))"

definition purchased_price_ids :: "line_item list \<Rightarrow> string list" where
  "purchased_price_ids lineItems = map or_empty (filter truthy (map price_id lineItems))"

text \<open>
  \<open>handleCheckoutCompleted\<close>, with the two catalog tables as arguments. The first
  component is the error the call throws, if it throws: an error of the line-item
  fetch or of the loop over the price ids, or the error \<open>recordFailedEmail\<close> throws
  inside the \<open>catch\<close> block.
\<close>

definition handleCheckoutCompleted :: "(string \<times> product) list \<Rightarrow> (string \<times> string list) list
    \<Rightarrow> webhook_env \<Rightarrow> checkout_session \<Rightarrow> world \<Rightarrow> js_error option \<times> world" where
  "handleCheckoutCompleted names links env session w =
     (let w1 = emit [StripeListLineItems (session_id session)] w
      in case listLineItems env (session_id session) of
           Inl e \<Rightarrow> (Some e, w1)
         | Inr lineItems \<Rightarrow>
             (let customerEmail = js_or (customer_details_email session) (customer_email session)
              in if \<not> truthy customerEmail then (None, w1)
                 else (case checkout_notification names links (purchased_price_ids lineItems) of
                         Inl e \<Rightarrow> (Some e, w1)
                       | Inr None \<Rightarrow> (None, w1)
                       | Inr (Some (productName, sortedKeys)) \<Rightarrow>
                           (let w2 = emit [ReadZoomMeetings] w1;
                                emailContent = EmailContent productName sortedKeys (loadZoomMeetings env);
                                (r, es) = sendEmailWithRetry (transport env) (or_empty customerEmail) emailContent 3;
                                w3 = emit es w2
                            in case r of
                                 Thrown error \<Rightarrow>
                                   recordFailedEmail (toISOString env) (or_empty customerEmail) productName error w3
                               | _ \<Rightarrow> (None, w3)))))"

datatype webhook_body = Text string | Json_received "string option"

datatype webhook_response = Response nat webhook_body

text \<open>The handler of \<open>POST /stripe/webhook\<close>: raw body and signature header in, response out.\<close>

definition stripe_webhook :: "(string \<times> product) list \<Rightarrow> (string \<times> string list) list
    \<Rightarrow> webhook_env \<Rightarrow> string \<Rightarrow> string option \<Rightarrow> world \<Rightarrow> webhook_response \<times> world" where
  "stripe_webhook names links env body sig w =
     (case constructEvent env body sig of
        Inl err \<Rightarrow> (Response 400 (Text (''Webhook Error: '' @ err_message err)), w)
      | Inr event \<Rightarrow>
          (let w1 = emit [ReadProcessedEvents] w;
               processedEvents = loadProcessedEvents w1
           in if event_id event \<in> set processedEvents
              then (Response 200 (Json_received (Some ''already_processed'')), w1)
              else (let (thrown, w2) =
                          (if event_type event = ''checkout.session.completed''
                           then handleCheckoutCompleted names links env (event_object event) w1
                           else (None, w1))
                    in case thrown of
                         Some err \<Rightarrow> (Response 500 (Text ''Webhook handler error''), w2)
                       | None \<Rightarrow> (Response 200 (Json_received None), saveProcessedEvent (event_id event) w2))))"

text \<open>The handler as the server runs it, on the tables built from the configuration.\<close>

definition webhook :: "config \<Rightarrow> webhook_env \<Rightarrow> string \<Rightarrow> string option \<Rightarrow> world
    \<Rightarrow> webhook_response \<times> world" where
  "webhook cfg = stripe_webhook (PRODUCT_NAME_MAP cfg) (ZOOM_LINK_MAP cfg)"

section \<open>Entitlement Resolver (\<open>POST /archive/verify\<close>)\<close>

datatype customer = Customer (customer_id: string)

datatype subscription = Subscription (sub_items: "line_item list")

text \<open>
  The read operations of the billing provider and, for the variant with Firebase,
  \<open>admin.auth().verifyIdToken\<close> (its result is \<open>decoded.email\<close>). The session list takes
  the customer filter, or \<open>None\<close> for the list of the most recent sessions.
\<close>

record provider =
  customers_list :: "string \<Rightarrow> js_error + customer list"
  subscriptions_list :: "string \<Rightarrow> js_error + subscription list"
  sessions_list :: "string option \<Rightarrow> js_error + checkout_session list"
  sessions_listLineItems :: "string \<Rightarrow> js_error + line_item list"
  verifyIdToken :: "string \<Rightarrow> js_error + string option"

text \<open>The calls a request makes, in order, each with whether it returned or threw.\<close>

datatype call =
    CustomersList string
  | SubscriptionsList string
  | SessionsList "string option"
  | ListLineItems string
  | VerifyIdToken string

datatype call_log = Returned call | Threw call

definition logged :: "call \<Rightarrow> js_error + 'a \<Rightarrow> call_log" where
  "logged c r = (case r of Inl e \<Rightarrow> Threw c | Inr v \<Rightarrow> Returned c)"

text \<open>Channel 1: the three nested loops, each leaving at the first circle item.\<close>

fun scan_items :: "line_item list \<Rightarrow> string list \<Rightarrow> string list" where
  "scan_items [] keys = keys"
| "scan_items (item # rest) keys =
     (if price_product item = Some CIRCLE_PRODUCT_ID then fold set_add ALL_SESSION_KEYS keys
      else scan_items rest keys)"

fun scan_subscriptions :: "subscription list \<Rightarrow> string list \<Rightarrow> string list" where
  "scan_subscriptions [] keys = keys"
| "scan_subscriptions (sub # rest) keys =
     (let keys1 = scan_items (sub_items sub) keys
      in if length keys1 > 0 then keys1 else scan_subscriptions rest keys1)"

fun scan_customers :: "provider \<Rightarrow> customer list \<Rightarrow> string list \<times> call_log list
    \<Rightarrow> js_error option \<times> string list \<times> call_log list" where
  "scan_customers env [] (keys, calls) = (None, keys, calls)"
| "scan_customers env (c # rest) (keys, calls) =
     (let r = subscriptions_list env (customer_id c);
          calls1 = calls @ [logged (SubscriptionsList (customer_id c)) r]
      in case r of
           Inl e \<Rightarrow> (Some e, keys, calls1)
         | Inr subscriptions \<Rightarrow>
             (let keys1 = scan_subscriptions subscriptions keys
              in if length keys1 > 0 then (None, keys1, calls1)
                 else scan_customers env rest (keys1, calls1)))"

text \<open>
  The inner \<open>try\<close> block: \<open>allCustomers\<close>, the keys and the calls made. An error of
  either list call is caught and logged to the console.
\<close>

definition subscription_channel :: "provider \<Rightarrow> string
    \<Rightarrow> customer list \<times> string list \<times> call_log list" where
  "subscription_channel env email =
     (let r = customers_list env email;
          calls1 = [logged (CustomersList email) r]
      in case r of
           Inl subErr \<Rightarrow> ([], [], calls1)
         | Inr allCustomers \<Rightarrow>
             (let (thrown, keys, calls2) = scan_customers env allCustomers ([], calls1)
              in (allCustomers, keys, calls2)))"

text \<open>
  The loop over the line items of one session, inside its own \<open>try\<close>: an inherited
  property has no \<open>forEach\<close>, the \<open>TypeError\<close> is caught and the rest of the items
  is skipped.
\<close>

fun add_items :: "(string \<times> string list) list \<Rightarrow> line_item list \<Rightarrow> string list \<Rightarrow> string list" where
  "add_items archive [] keys = keys"
| "add_items archive (item # rest) keys =
     (if \<not> truthy (price_id item) then add_items archive rest keys
      else (case object_literal archive (or_empty (price_id item)) of
              Absent \<Rightarrow> add_items archive rest keys
            | Own ks \<Rightarrow> add_items archive rest (fold set_add ks keys)
            | Inherited \<Rightarrow> keys))"

definition paid :: "checkout_session \<Rightarrow> bool" where
  "paid session = (\<not> (payment_status session \<noteq> ''paid'' \<and> payment_status session \<noteq> ''no_payment_required''))"

text \<open>
  The loop over sessions; \<open>keep\<close> is the conjunction of the \<open>continue\<close> conditions. A
  line-item fetch that throws is logged and the session skipped.
\<close>

fun scan_sessions :: "(string \<times> string list) list \<Rightarrow> provider \<Rightarrow> (checkout_session \<Rightarrow> bool)
    \<Rightarrow> checkout_session list \<Rightarrow> string list \<times> call_log list \<Rightarrow> string list \<times> call_log list" where
  "scan_sessions archive env keep [] acc = acc"
| "scan_sessions archive env keep (session # rest) (keys, calls) =
     (if \<not> keep session then scan_sessions archive env keep rest (keys, calls)
      else (let r = sessions_listLineItems env (session_id session);
                calls1 = calls @ [logged (ListLineItems (session_id session)) r]
            in case r of
                 Inl lineItemErr \<Rightarrow> scan_sessions archive env keep rest (keys, calls1)
               | Inr lineItems \<Rightarrow> scan_sessions archive env keep rest (add_items archive lineItems keys, calls1)))"

text \<open>Channel 2: the loop over \<open>allCustomers\<close>; a session list that throws leaves the outer \<open>try\<close>.\<close>

fun purchase_channel :: "(string \<times> string list) list \<Rightarrow> provider \<Rightarrow> customer list
    \<Rightarrow> string list \<times> call_log list \<Rightarrow> js_error option \<times> string list \<times> call_log list" where
  "purchase_channel archive env [] (keys, calls) = (None, keys, calls)"
| "purchase_channel archive env (c # rest) (keys, calls) =
     (let r = sessions_list env (Some (customer_id c));
          calls1 = calls @ [logged (SessionsList (Some (customer_id c))) r]
      in case r of
           Inl e \<Rightarrow> (Some e, keys, calls1)
         | Inr sessions \<Rightarrow> purchase_channel archive env rest (scan_sessions archive env paid sessions (keys, calls1)))"

text \<open>Channel 3: the most recent sessions, filtered by the buyer's email.\<close>

definition session_email :: "checkout_session \<Rightarrow> string" where
  "session_email session =
     toLowerCase (or_empty (js_or (js_or (customer_details_email session) (customer_email session)) (Some [])))"

definition guest_channel :: "(string \<times> string list) list \<Rightarrow> provider \<Rightarrow> string
    \<Rightarrow> string list \<times> call_log list \<Rightarrow> js_error option \<times> string list \<times> call_log list" where
  "guest_channel archive env email acc =
     (let r = sessions_list env None;
          calls1 = snd acc @ [logged (SessionsList None) r]
      in case r of
           Inl e \<Rightarrow> (Some e, fst acc, calls1)
         | Inr recentSessions \<Rightarrow>
             (let (keys, calls2) =
                    scan_sessions archive env (\<lambda>session. \<not> session_email session \<noteq> email \<and> paid session)
                      recentSessions (fst acc, calls1)
              in (None, keys, calls2)))"

datatype archive_message = InvalidEmail | RateLimited | NotFound | ServerError | AuthFailed

datatype page = ArchiveErrorPage archive_message | ArchiveVideoPage "string list"

datatype archive_response = Page nat page

text \<open>The outer \<open>try\<close> block of the handler, for a validated email that passed the rate limit.\<close>

definition resolve :: "(string \<times> string list) list \<Rightarrow> provider \<Rightarrow> string
    \<Rightarrow> archive_response \<times> call_log list" where
  "resolve archive env email =
     (let (allCustomers, keys1, calls1) = subscription_channel env email;
          (thrown, purchasedSessionKeys, calls) =
            (if length keys1 = 0 then
               (let (thrown2, keys2, calls2) = purchase_channel archive env allCustomers (keys1, calls1)
                in if thrown2 \<noteq> None then (thrown2, keys2, calls2)
                   else if length keys2 = 0 \<and> length allCustomers = 0
                        then guest_channel archive env email (keys2, calls2)
                        else (None, keys2, calls2))
             else (None, keys1, calls1))
      in if thrown \<noteq> None then (Page 500 (ArchiveErrorPage ServerError), calls)
         else if length purchasedSessionKeys = 0 then (Page 200 (ArchiveErrorPage NotFound), calls)
         else (Page 200 (ArchiveVideoPage (filter (\<lambda>k. k \<in> set purchasedSessionKeys) ALL_SESSION_KEYS)), calls))"

text \<open>
  The test of \<open>/^[^\s@]+@[^\s@]+\.[^\s@]+$/\<close>: no white space, exactly one \<open>@\<close> with
  something before it, and after it a dot that is neither the first nor the last
  character.
\<close>

definition email_regex_test :: "string \<Rightarrow> bool" where
  "email_regex_test s =
     (let local_part = takeWhile (\<lambda>c. c \<noteq> CHR ''@'') s;
          at_domain = dropWhile (\<lambda>c. c \<noteq> CHR ''@'') s
      in local_part \<noteq> [] \<and> at_domain \<noteq> [] \<and> CHR ''@'' \<notin> set (tl at_domain) \<and>
         \<not> list_ex is_space s \<and> list_ex (\<lambda>c. c = CHR ''.'') (butlast (tl (tl at_domain))))"

text \<open>Validation, rate limit and resolution: the handler from the point where \<open>email\<close> is known.\<close>

definition verify_email :: "config \<Rightarrow> nat \<Rightarrow> provider \<Rightarrow> int \<Rightarrow> string \<Rightarrow> rate_map
    \<Rightarrow> call_log list \<Rightarrow> archive_response \<times> rate_map \<times> call_log list" where
  "verify_email cfg maxRequests env now email archiveRateLimit calls0 =
     (if email = [] \<or> \<not> email_regex_test email
      then (Page 200 (ArchiveErrorPage InvalidEmail), archiveRateLimit, calls0)
      else (let (allowed, limits1) = checkArchiveRateLimit maxRequests now email archiveRateLimit
            in if \<not> allowed then (Page 429 (ArchiveErrorPage RateLimited), limits1, calls0)
               else (let (response, calls) = resolve (ARCHIVE_SESSION_MAP cfg) env email
                     in (response, limits1, calls0 @ calls))))"

record verify_request =
  body_email :: "string option"
  body_firebaseToken :: "string option"

text \<open>The handler of \<open>server/index.js\<close>.\<close>

definition archive_verify :: "config \<Rightarrow> provider \<Rightarrow> int \<Rightarrow> verify_request \<Rightarrow> rate_map
    \<Rightarrow> archive_response \<times> rate_map \<times> call_log list" where
  "archive_verify cfg env now req archiveRateLimit =
     (let email = toLowerCase (trim (or_empty (body_email req)))
      in verify_email cfg maxRequests_index env now email archiveRateLimit [])"

text \<open>
  The handler of the variant \<open>unnamed/part_000\<close>; \<open>FIREBASE_CONFIG\<close> is whether the
  service account is configured.
\<close>

definition archive_verify_part_000 :: "config \<Rightarrow> bool \<Rightarrow> provider \<Rightarrow> int \<Rightarrow> verify_request \<Rightarrow> rate_map
    \<Rightarrow> archive_response \<times> rate_map \<times> call_log list" where
  "archive_verify_part_000 cfg FIREBASE_CONFIG env now req archiveRateLimit =
     (if truthy (body_firebaseToken req) \<and> FIREBASE_CONFIG then
        (let firebaseToken = or_empty (body_firebaseToken req);
             r = verifyIdToken env firebaseToken;
             calls0 = [logged (VerifyIdToken firebaseToken) r]
         in case r of
              Inl tokenErr \<Rightarrow> (Page 200 (ArchiveErrorPage AuthFailed), archiveRateLimit, calls0)
            | Inr decoded_email \<Rightarrow>
                verify_email cfg maxRequests_part_000 env now (toLowerCase (or_empty decoded_email))
                  archiveRateLimit calls0)
      else verify_email cfg maxRequests_part_000 env now
             (toLowerCase (trim (or_empty (body_email req)))) archiveRateLimit [])"

section \<open>Auxiliary definitions for the properties\<close>

text \<open>The number of timestamps of a key that are inside the window at a given time.\<close>

definition live :: "int \<Rightarrow> rate_map \<Rightarrow> string \<Rightarrow> nat" where
  "live now m k = length (filter (\<lambda>t. now - t < windowMs) (stamps m k))"

text \<open>Five requests of one identity, spelled in four ways, one second apart.\<close>

definition demo_requests :: "(int \<times> string) list" where
  "demo_requests = [(0, ''a@b.jp''), (1000, ''A@B.jp''), (2000, '' a@b.jp''), (3000, ''a@B.JP ''), (4000, ''a@b.jp'')]"

text \<open>Projections of a trace: the transport POSTs, the dispatches and the waits.\<close>

fun is_post :: "effect \<Rightarrow> bool" where
  "is_post (SendGridPost to c) = True"
| "is_post e = False"

fun is_dispatch :: "effect \<Rightarrow> bool" where
  "is_dispatch (Dispatch to) = True"
| "is_dispatch e = False"

fun wait_of :: "effect \<Rightarrow> nat option option" where
  "wait_of (Sleep d) = Some d"
| "wait_of e = None"

definition posts :: "effect list \<Rightarrow> nat" where
  "posts es = length (filter is_post es)"

definition dispatches :: "effect list \<Rightarrow> nat" where
  "dispatches es = length (filter is_dispatch es)"

definition waits :: "effect list \<Rightarrow> nat option list" where
  "waits es = List.map_filter wait_of es"

text \<open>
  The condition under which \<open>handleCheckoutCompleted\<close> reaches \<open>sendEmailWithRetry\<close>:
  the line items are fetched, the session has a buyer email and the purchase is not
  skipped.
\<close>

definition notifies :: "(string \<times> product) list \<Rightarrow> (string \<times> string list) list
    \<Rightarrow> webhook_env \<Rightarrow> checkout_session \<Rightarrow> bool" where
  "notifies names links env session =
     (case listLineItems env (session_id session) of
        Inl e \<Rightarrow> False
      | Inr lineItems \<Rightarrow>
          truthy (js_or (customer_details_email session) (customer_email session)) \<and>
          (case checkout_notification names links (purchased_price_ids lineItems) of
             Inr (Some n) \<Rightarrow> True
           | _ \<Rightarrow> False))"

section \<open>Concrete inputs for the webhook\<close>

definition demo_session :: checkout_session where
  "demo_session = \<lparr>session_id = ''cs_1'', customer_details_email = Some ''Buyer@example.com'',
                    customer_email = None, payment_status = ''paid''\<rparr>"

definition demo_event :: event where
  "demo_event = \<lparr>event_id = ''evt_1'', event_type = ''checkout.session.completed'',
                  event_object = demo_session\<rparr>"

definition demo_config :: config where
  "demo_config = \<lparr>PRICE_ID_FULL_DAY = Some ''price_full'',
                   PRICE_ID_PRACTICAL_AI_ARCHITECTURE = Some ''price_arch'',
                   PRICE_ID_IMAGE_GEN_AI = Some ''price_image'',
                   PRICE_ID_GOOGLE_HP_GAS = Some ''price_gas''\<rparr>"

definition item :: "string \<Rightarrow> line_item" where
  "item p = \<lparr>price_id = Some p, price_product = None\<rparr>"

definition demo_env :: "(nat \<Rightarrow> fetch_result) \<Rightarrow> line_item list \<Rightarrow> webhook_env" where
  "demo_env tr items =
     \<lparr>constructEvent = (\<lambda>body sig. if sig = Some ''t=1,v1=good'' then Inr demo_event
                          else Inl (JsError ''StripeSignatureVerificationError'' ''No signatures found'')),
      listLineItems = (\<lambda>sid. Inr items),
      loadZoomMeetings = [],
      transport = tr,
      toISOString = ''2025-01-01T00:00:00.000Z''\<rparr>"

definition transport_down :: "nat \<Rightarrow> fetch_result" where
  "transport_down attempt = Responded 503 (Inr ''down'')"

definition transport_third :: "nat \<Rightarrow> fetch_result" where
  "transport_third attempt = (if attempt < 2 then FetchFailed (JsError ''TypeError'' ''fetch failed'') else Responded 202 (Inr []))"

text \<open>A fresh installation, without the data directory, and one with an empty directory.\<close>

definition new_world :: world where
  "new_world = \<lparr>data_dir = False, processed_events_json = None, failed_emails_json = None, effects = []\<rparr>"

definition ready_world :: world where
  "ready_world = \<lparr>data_dir = True, processed_events_json = None, failed_emails_json = None, effects = []\<rparr>"

definition demo_content :: email_content where
  "demo_content = EmailContent (Own PracticalAiArchitectureSeminar) [''C'', ''F''] []"

text \<open>A catalog in which no list of registration-link keys has the shared key.\<close>

definition links_without_F :: "(string \<times> string list) list" where
  "links_without_F = [(''price_x'', [''C''])]"

definition names_x :: "(string \<times> product) list" where
  "names_x = [(''price_x'', ImageGenAiSeminar)]"

text \<open>The number of entries of the failed-email file.\<close>

definition failed_count :: "world \<Rightarrow> nat" where
  "failed_count w = length (case failed_emails_json w of None \<Rightarrow> [] | Some fs \<Rightarrow> fs)"

text \<open>
  A sequence of deliveries to the webhook endpoint, each with its own collaborators,
  body and signature header.
\<close>

fun deliveries :: "(string \<times> product) list \<Rightarrow> (string \<times> string list) list
    \<Rightarrow> (webhook_env \<times> string \<times> string option) list \<Rightarrow> world \<Rightarrow> webhook_response list \<times> world" where
  "deliveries names links [] w = ([], w)"
| "deliveries names links ((env, body, sig) # ds) w =
     (let (r, w1) = stripe_webhook names links env body sig w;
          (rs, w2) = deliveries names links ds w1
      in (r # rs, w2))"

text \<open>A delivery of the demonstration event with a signature that verifies.\<close>

definition good_sig :: "string option" where
  "good_sig = Some ''t=1,v1=good''"

section \<open>Auxiliary definitions for the resolver\<close>

fun call_of :: "call_log \<Rightarrow> call" where
  "call_of (Returned c) = c"
| "call_of (Threw c) = c"

fun threw :: "call_log \<Rightarrow> bool" where
  "threw (Returned c) = False"
| "threw (Threw c) = True"

fun is_sessions_list :: "call \<Rightarrow> bool" where
  "is_sessions_list (SessionsList c) = True"
| "is_sessions_list c = False"

fun is_verify :: "call \<Rightarrow> bool" where
  "is_verify (VerifyIdToken t) = True"
| "is_verify c = False"

text \<open>Some checkout-session listing call of the request threw.\<close>

definition sessions_list_threw :: "call_log list \<Rightarrow> bool" where
  "sessions_list_threw calls = list_ex (\<lambda>x. threw x \<and> is_sessions_list (call_of x)) calls"

text \<open>Some subscription of the list has a line item of the circle product.\<close>

definition circle_member :: "subscription list \<Rightarrow> bool" where
  "circle_member subscriptions =
     list_ex (\<lambda>sub. list_ex (\<lambda>item. price_product item = Some CIRCLE_PRODUCT_ID) (sub_items sub)) subscriptions"

text \<open>No call of the list is an identity-token verification.\<close>

definition no_verify :: "call_log list \<Rightarrow> bool" where
  "no_verify calls = (\<not> list_ex (\<lambda>x. is_verify (call_of x)) calls)"

section \<open>Concrete providers\<close>

definition provider_error :: js_error where
  "provider_error = JsError ''StripeConnectionError'' ''timeout''"

definition circle_item :: line_item where
  "circle_item = \<lparr>price_id = Some ''price_circle'', price_product = Some CIRCLE_PRODUCT_ID\<rparr>"

text \<open>Two customer records; the second has an active circle subscription. Every other call fails.\<close>

definition member_provider :: provider where
  "member_provider =
     \<lparr>customers_list = (\<lambda>email. Inr [Customer ''cus_1'', Customer ''cus_2'']),
      subscriptions_list = (\<lambda>cid. if cid = ''cus_2'' then Inr [Subscription [circle_item]] else Inr []),
      sessions_list = (\<lambda>c. Inl provider_error),
      sessions_listLineItems = (\<lambda>sid. Inl provider_error),
      verifyIdToken = (\<lambda>t. Inl provider_error)\<rparr>"

text \<open>Every call fails.\<close>

definition provider_down :: provider where
  "provider_down =
     \<lparr>customers_list = (\<lambda>email. Inl provider_error),
      subscriptions_list = (\<lambda>cid. Inl provider_error),
      sessions_list = (\<lambda>c. Inl provider_error),
      sessions_listLineItems = (\<lambda>sid. Inl provider_error),
      verifyIdToken = (\<lambda>t. Inl provider_error)\<rparr>"

text \<open>
  One customer record with one paid session for the image seminar and no
  subscription. In the flaky provider the subscription list and the line-item fetch
  fail; in the healthy one they answer.
\<close>

definition flaky_provider :: provider where
  "flaky_provider =
     \<lparr>customers_list = (\<lambda>email. Inr [Customer ''cus_1'']),
      subscriptions_list = (\<lambda>cid. Inl provider_error),
      sessions_list = (\<lambda>c. Inr [demo_session]),
      sessions_listLineItems = (\<lambda>sid. Inl provider_error),
      verifyIdToken = (\<lambda>t. Inl provider_error)\<rparr>"

definition healthy_provider :: provider where
  "healthy_provider =
     \<lparr>customers_list = (\<lambda>email. Inr [Customer ''cus_1'']),
      subscriptions_list = (\<lambda>cid. Inr []),
      sessions_list = (\<lambda>c. Inr [demo_session]),
      sessions_listLineItems = (\<lambda>sid. Inr [item ''price_image'']),
      verifyIdToken = (\<lambda>t. Inl provider_error)\<rparr>"

text \<open>
  A guest purchase: no customer record, one recent paid session. In the flaky
  provider the customer lookup and the line-item fetch fail.
\<close>

definition flaky_guest_provider :: provider where
  "flaky_guest_provider =
     \<lparr>customers_list = (\<lambda>email. Inl provider_error),
      subscriptions_list = (\<lambda>cid. Inl provider_error),
      sessions_list = (\<lambda>c. Inr [demo_session]),
      sessions_listLineItems = (\<lambda>sid. Inl provider_error),
      verifyIdToken = (\<lambda>t. Inl provider_error)\<rparr>"

definition healthy_guest_provider :: provider where
  "healthy_guest_provider =
     \<lparr>customers_list = (\<lambda>email. Inr []),
      subscriptions_list = (\<lambda>cid. Inr []),
      sessions_list = (\<lambda>c. Inr [demo_session]),
      sessions_listLineItems = (\<lambda>sid. Inr [item ''price_image'']),
      verifyIdToken = (\<lambda>t. Inl provider_error)\<rparr>"

text \<open>A provider whose token verification answers with another address than the form field.\<close>

definition token_provider :: provider where
  "token_provider =
     \<lparr>customers_list = (\<lambda>email. Inr []),
      subscriptions_list = (\<lambda>cid. Inr []),
      sessions_list = (\<lambda>c. Inr []),
      sessions_listLineItems = (\<lambda>sid. Inr []),
      verifyIdToken = (\<lambda>t. Inr (Some ''verified@example.com''))\<rparr>"

definition buyer_request :: verify_request where
  "buyer_request = \<lparr>body_email = Some '' Buyer@Example.com'', body_firebaseToken = None\<rparr>"

section \<open>Properties of the rate limiter\<close>

lemma check_allowed_iff:
  "fst (checkArchiveRateLimit N now e m) \<longleftrightarrow>
     length (filter (\<lambda>t. now - t < windowMs) (stamps m (rate_key e))) < N"
  by (auto simp: checkArchiveRateLimit_def Let_def stamps_def split: option.splits)

lemma check_stamps:
  "stamps (snd (checkArchiveRateLimit N now e m)) (rate_key e) =
     (if fst (checkArchiveRateLimit N now e m)
      then filter (\<lambda>t. now - t < windowMs) (stamps m (rate_key e)) @ [now]
      else filter (\<lambda>t. now - t < windowMs) (stamps m (rate_key e)))"
  by (auto simp: checkArchiveRateLimit_def Let_def stamps_def split: option.splits)

lemma check_other_key:
  "k \<noteq> rate_key e \<Longrightarrow> stamps (snd (checkArchiveRateLimit N now e m)) k = stamps m k"
  by (auto simp: checkArchiveRateLimit_def Let_def stamps_def split: option.splits)

lemma filter_window_mono:
  "t \<le> now \<Longrightarrow> filter (\<lambda>s. t - s < windowMs \<and> now - s < windowMs) xs
     = filter (\<lambda>s. now - s < windowMs) xs"
  by (rule filter_cong) auto

lemma live_step:
  assumes "t \<le> now" "now - t < windowMs"
  shows "live now (snd (checkArchiveRateLimit N t e m)) (rate_key e) =
           live now m (rate_key e) + (if fst (checkArchiveRateLimit N t e m) then 1 else 0)"
  using assms by (simp add: live_def check_stamps filter_window_mono)

lemma run_checks_fresh:
  assumes "\<forall>r\<in>set rs. rate_key (snd r) = k"
      and "length (stamps m k) + length rs \<le> N"
  shows "fst (run_checks N rs m) = replicate (length rs) True \<and>
         length (stamps (snd (run_checks N rs m)) k) \<le> length (stamps m k) + length rs"
  using assms
proof (induction rs arbitrary: m)
  case Nil
  then show ?case by simp
next
  case (Cons r rs)
  obtain t e where r: "r = (t, e)" by (cases r)
  from Cons.prems r have ke: "rate_key e = k" by simp
  let ?c = "checkArchiveRateLimit N t e m"
  have len: "length (filter (\<lambda>s. t - s < windowMs) (stamps m k)) \<le> length (stamps m k)"
    by simp
  have l2: "length (stamps m k) + Suc (length rs) \<le> N" using Cons.prems(2) by simp
  from len l2 have "length (filter (\<lambda>s. t - s < windowMs) (stamps m k)) < N"
    by linarith
  then have ok: "fst ?c"
    by (simp add: check_allowed_iff ke)
  have st: "length (stamps (snd ?c) k) \<le> length (stamps m k) + 1"
    using check_stamps[of N t e m] ok len by (simp add: ke)
  have "\<forall>r\<in>set rs. rate_key (snd r) = k" using Cons.prems(1) by simp
  moreover have "length (stamps (snd ?c) k) + length rs \<le> N" using st Cons.prems(2) by simp
  ultimately have IH: "fst (run_checks N rs (snd ?c)) = replicate (length rs) True \<and>
         length (stamps (snd (run_checks N rs (snd ?c))) k) \<le> length (stamps (snd ?c) k) + length rs"
    by (rule Cons.IH)
  show ?case using IH ok st by (simp add: r split_beta Let_def)
qed

lemma run_checks_live:
  assumes "\<forall>r\<in>set rs. rate_key (snd r) = k \<and> fst r \<le> now \<and> now - fst r < windowMs"
  shows "live now (snd (run_checks N rs m)) k =
           live now m k + length (filter (\<lambda>b. b) (fst (run_checks N rs m)))"
  using assms
proof (induction rs arbitrary: m)
  case Nil
  then show ?case by simp
next
  case (Cons r rs)
  obtain t e where r: "r = (t, e)" by (cases r)
  from Cons.prems r have ke: "rate_key e = k" and t: "t \<le> now" "now - t < windowMs" by simp_all
  let ?c = "checkArchiveRateLimit N t e m"
  have IH: "live now (snd (run_checks N rs (snd ?c))) k =
           live now (snd ?c) k + length (filter (\<lambda>b. b) (fst (run_checks N rs (snd ?c))))"
    using Cons.prems by (intro Cons.IH) simp
  show ?case using IH live_step[OF t, of N e m] by (simp add: r split_beta Let_def ke)
qed

lemma check_bounded:
  "length (stamps m k) \<le> N \<Longrightarrow> length (stamps (snd (checkArchiveRateLimit N t e m)) k) \<le> N"
proof (cases "k = rate_key e")
  case True
  assume b: "length (stamps m k) \<le> N"
  have "length (filter (\<lambda>s. t - s < windowMs) (stamps m k)) \<le> length (stamps m k)" by simp
  with b have f: "length (filter (\<lambda>s. t - s < windowMs) (stamps m k)) \<le> N"
    by linarith
  show ?thesis
  proof (cases "fst (checkArchiveRateLimit N t e m)")
    case ok: True
    then have "length (filter (\<lambda>s. t - s < windowMs) (stamps m k)) < N"
      by (simp add: check_allowed_iff True)
    then show ?thesis using ok check_stamps[of N t e m] by (simp add: True)
  next
    case no: False
    then show ?thesis using f check_stamps[of N t e m] by (simp add: True)
  qed
next
  case False
  assume "length (stamps m k) \<le> N"
  with False show ?thesis by (simp add: check_other_key)
qed

lemma check_after_expiry:
  assumes "length (stamps m (rate_key e)) \<le> N" "t0 \<in> set (stamps m (rate_key e))" "windowMs \<le> now - t0"
  shows "fst (checkArchiveRateLimit N now e m)"
proof -
  have "\<not> (now - t0 < windowMs)" using assms(3) by simp
  with assms(2) have "length (filter (\<lambda>t. now - t < windowMs) (stamps m (rate_key e))) < length (stamps m (rate_key e))"
    by (intro length_filter_less) auto
  with assms(1) show ?thesis by (simp add: check_allowed_iff)
qed

text \<open>
  Claim C3. For requests of one identity (emails with the same trimmed, lower-cased
  key) and a ceiling \<open>N\<close>: after \<open>N\<close> requests inside the ten-minute window, all of
  them allowed, the next request inside the window is denied; the denied request
  stores the surviving timestamps only, so nothing is appended and the key still
  holds \<open>N\<close> of them; and once the window has passed the earliest recorded timestamp
  a further request is allowed. The ceiling is the constant \<open>5\<close> in
  \<open>server/index.js\<close> (\<open>maxRequests_index\<close>) and \<open>30\<close> in the variant.
\<close>

theorem rate_limit_window:
  assumes len: "length rs = N"
      and reqs: "\<forall>r\<in>set rs. rate_key (snd r) = rate_key e \<and> fst r \<le> now \<and> now - fst r < windowMs"
      and fresh: "stamps m (rate_key e) = []"
      and run: "run_checks N rs m = (oks, m1)"
      and chk: "checkArchiveRateLimit N now e m1 = (ok, m2)"
  shows "oks = replicate N True \<and> \<not> ok \<and>
         stamps m2 (rate_key e) = filter (\<lambda>t. now - t < windowMs) (stamps m1 (rate_key e)) \<and>
         length (stamps m2 (rate_key e)) = N \<and>
         (\<forall>later e'. 0 < N \<and> rate_key e' = rate_key e \<and>
             windowMs \<le> later - Min (set (stamps m2 (rate_key e)))
             \<longrightarrow> fst (checkArchiveRateLimit N later e' m2))"
proof -
  let ?k = "rate_key e"
  have keys: "\<forall>r\<in>set rs. rate_key (snd r) = ?k" using reqs by simp
  have "length (stamps m ?k) + length rs \<le> N" using len fresh by simp
  from run_checks_fresh[OF keys this] run
  have oks: "oks = replicate N True" and b1: "length (stamps m1 ?k) \<le> N"
    by (simp_all add: len fresh)
  have "live now m1 ?k = live now m ?k + length (filter (\<lambda>b. b) oks)"
    using run_checks_live[OF reqs, of N m] run by simp
  then have lv: "live now m1 ?k = N" by (simp add: oks live_def fresh)
  then have no: "\<not> ok"
    using check_allowed_iff[of N now e m1] chk by (simp add: live_def)
  have st: "stamps m2 ?k = filter (\<lambda>t. now - t < windowMs) (stamps m1 ?k)"
    using check_stamps[of N now e m1] chk no by simp
  have l2: "length (stamps m2 ?k) = N" using st lv by (simp add: live_def)
  have later: "fst (checkArchiveRateLimit N later e' m2)"
    if h: "0 < N" "rate_key e' = ?k" "windowMs \<le> later - Min (set (stamps m2 ?k))" for later e'
  proof -
    have ne: "set (stamps m2 ?k) \<noteq> {}" using l2 h(1) by auto
    then have "Min (set (stamps m2 ?k)) \<in> set (stamps m2 ?k)" by (intro Min_in) simp
    then show ?thesis
      using check_after_expiry[of m2 e' N "Min (set (stamps m2 ?k))" later] l2 h by simp
  qed
  show ?thesis using oks no st l2 later by blast
qed

theorem rate_limit_window_witness:
  "fst (run_checks maxRequests_index demo_requests Map.empty) = replicate 5 True \<and>
   \<not> fst (checkArchiveRateLimit maxRequests_index 5000 ''a@b.jp''
            (snd (run_checks maxRequests_index demo_requests Map.empty))) \<and>
   stamps (snd (checkArchiveRateLimit maxRequests_index 5000 ''a@b.jp''
            (snd (run_checks maxRequests_index demo_requests Map.empty)))) ''a@b.jp'' = [0, 1000, 2000, 3000, 4000] \<and>
   fst (checkArchiveRateLimit maxRequests_index 600000 ''a@b.jp''
         (snd (checkArchiveRateLimit maxRequests_index 5000 ''a@b.jp''
            (snd (run_checks maxRequests_index demo_requests Map.empty)))))"
proof -
  let ?m1 = "snd (run_checks maxRequests_index demo_requests Map.empty)"
  let ?c = "checkArchiveRateLimit maxRequests_index 5000 ''a@b.jp'' ?m1"
  have k: "rate_key ''a@b.jp'' = ''a@b.jp''" "rate_key ''A@B.jp'' = ''a@b.jp''"
     "rate_key '' a@b.jp'' = ''a@b.jp''" "rate_key ''a@B.JP '' = ''a@b.jp''"
    by code_simp+
  have 1: "length demo_requests = maxRequests_index"
    by (simp add: demo_requests_def maxRequests_index_def)
  have 2: "\<forall>r\<in>set demo_requests. rate_key (snd r) = rate_key ''a@b.jp'' \<and> fst r \<le> 5000 \<and> 5000 - fst r < windowMs"
    by (simp add: demo_requests_def k windowMs_def)
  have 3: "stamps Map.empty (rate_key ''a@b.jp'') = []" by (simp add: stamps_def)
  have 4: "run_checks maxRequests_index demo_requests Map.empty = (fst (run_checks maxRequests_index demo_requests Map.empty), ?m1)"
    by simp
  have 5: "?c = (fst ?c, snd ?c)" by simp
  note T = rate_limit_window[OF 1 2 3 4 5]
  have s1: "stamps ?m1 ''a@b.jp'' = [0, 1000, 2000, 3000, 4000]"
    by (simp add: demo_requests_def checkArchiveRateLimit_def k stamps_def maxRequests_index_def windowMs_def Let_def)
  have s2: "stamps (snd ?c) ''a@b.jp'' = [0, 1000, 2000, 3000, 4000]"
    using T s1 by (simp add: k windowMs_def)
  have "fst (checkArchiveRateLimit maxRequests_index 600000 ''a@b.jp'' (snd ?c))"
    using T s2 by (simp add: k windowMs_def maxRequests_index_def)
  then show ?thesis using T s2 by (simp add: k maxRequests_index_def)
qed

text \<open>A denied request is answered with status 429 and makes no provider call.\<close>

lemma archive_verify_rate_limited:
  assumes "email = toLowerCase (trim (or_empty (body_email req)))" "email \<noteq> []"
          "email_regex_test email"
      and "checkArchiveRateLimit maxRequests_index now email limits = (False, limits1)"
  shows "archive_verify cfg env now req limits = (Page 429 (ArchiveErrorPage RateLimited), limits1, [])"
  using assms(2-4)
  by (simp add: archive_verify_def verify_email_def Let_def assms(1)[symmetric])

section \<open>Properties of the notification dispatcher and the webhook\<close>

lemma send_loop_3_2:
  "send_loop tr to c 3 2 =
     (case try_send (tr 2) of
        None \<Rightarrow> (Returned_true, [SendGridPost to c])
      | Some e \<Rightarrow> (Thrown e, [SendGridPost to c]))"
  by (subst send_loop.simps) (simp add: numeral_2_eq_2 split: option.splits)

lemma send_loop_3_1:
  "send_loop tr to c 3 1 =
     (case try_send (tr 1) of
        None \<Rightarrow> (Returned_true, [SendGridPost to c])
      | Some e1 \<Rightarrow>
          (case try_send (tr 2) of
             None \<Rightarrow> (Returned_true, [SendGridPost to c, Sleep (Some 2000), SendGridPost to c])
           | Some e \<Rightarrow> (Thrown e, [SendGridPost to c, Sleep (Some 2000), SendGridPost to c])))"
  by (subst send_loop.simps) (simp add: send_loop_3_2 delay_at_def delays_def numeral_2_eq_2 split: option.splits)

lemma sendEmailWithRetry_3:
  "sendEmailWithRetry tr to c 3 =
     (case try_send (tr 0) of
        None \<Rightarrow> (Returned_true, [Dispatch to, SendGridPost to c])
      | Some e0 \<Rightarrow>
          (case try_send (tr 1) of
             None \<Rightarrow> (Returned_true, [Dispatch to, SendGridPost to c, Sleep (Some 1000), SendGridPost to c])
           | Some e1 \<Rightarrow>
               (case try_send (tr 2) of
                  None \<Rightarrow> (Returned_true, [Dispatch to, SendGridPost to c, Sleep (Some 1000),
                               SendGridPost to c, Sleep (Some 2000), SendGridPost to c])
                | Some e \<Rightarrow> (Thrown e, [Dispatch to, SendGridPost to c, Sleep (Some 1000),
                               SendGridPost to c, Sleep (Some 2000), SendGridPost to c]))))"
  unfolding sendEmailWithRetry_def
  by (subst send_loop.simps) (simp add: send_loop_3_1 delay_at_def delays_def numeral_2_eq_2 split: option.splits)

lemma send_loop_posts:
  "posts (snd (send_loop tr to c maxRetries attempt)) \<le> maxRetries - attempt"
proof (induction tr to c maxRetries attempt rule: send_loop.induct)
  case (1 tr to c maxRetries attempt)
  show ?case
  proof (cases "attempt < maxRetries")
    case False
    then show ?thesis by (subst send_loop.simps) (simp add: posts_def)
  next
    case lt: True
    show ?thesis
    proof (cases "try_send (tr attempt)")
      case None
      with lt show ?thesis by (subst send_loop.simps) (simp add: posts_def)
    next
      case (Some e)
      show ?thesis
      proof (cases "attempt < maxRetries - 1")
        case True
        with 1[OF lt Some True] lt Some show ?thesis
          by (subst send_loop.simps) (simp add: posts_def split_beta)
      next
        case False
        with lt Some show ?thesis by (subst send_loop.simps) (simp add: posts_def)
      qed
    qed
  qed
qed

lemma emit_emit: "emit es (emit es' w) = emit (es' @ es) w"
  by (simp add: emit_def)

lemma handle_dispatch:
  assumes "listLineItems env (session_id session) = Inr lineItems"
      and "js_or (customer_details_email session) (customer_email session) = Some recipient"
      and "recipient \<noteq> []"
      and "checkout_notification names links (purchased_price_ids lineItems) = Inr (Some (productName, sortedKeys))"
  shows "handleCheckoutCompleted names links env session w =
           (let (r, es) = sendEmailWithRetry (transport env) recipient
                            (EmailContent productName sortedKeys (loadZoomMeetings env)) 3;
                w3 = emit ([StripeListLineItems (session_id session), ReadZoomMeetings] @ es) w
            in case r of
                 Thrown error \<Rightarrow> recordFailedEmail (toISOString env) recipient productName error w3
               | _ \<Rightarrow> (None, w3))"
  using assms
  by (simp add: handleCheckoutCompleted_def Let_def truthy_def or_empty_def emit_emit split_beta
           split: send_result.splits)

lemma handle_quiet:
  assumes "\<not> notifies names links env session"
  shows "snd (handleCheckoutCompleted names links env session w) = emit [StripeListLineItems (session_id session)] w"
  using assms
  by (auto simp: handleCheckoutCompleted_def notifies_def Let_def split: sum.splits option.splits)

declare show_nat.simps [simp del]

text \<open>
  Claim C8. A webhook request whose signature check throws (the header is invalid or
  missing) is answered with status 400, and the world is returned as it was: the
  processed-events file is neither read nor written, no effect is recorded, and the
  answer does not depend on the catalog tables or on the contents of the store.
\<close>

theorem signature_rejected_first:
  assumes "constructEvent env body sig = Inl err"
  shows "stripe_webhook names links env body sig w =
           (Response 400 (Text (''Webhook Error: '' @ err_message err)), w)"
  using assms by (simp add: stripe_webhook_def)

theorem signature_rejected_first_witness:
  "stripe_webhook (PRODUCT_NAME_MAP demo_config) (ZOOM_LINK_MAP demo_config)
      (demo_env transport_down [item ''price_arch'']) ''{}'' None new_world =
     (Response 400 (Text ''Webhook Error: No signatures found''), new_world) \<and>
   stripe_webhook (PRODUCT_NAME_MAP demo_config) (ZOOM_LINK_MAP demo_config)
      (demo_env transport_down [item ''price_arch'']) ''{}'' (Some ''t=1,v1=bad'') new_world =
     (Response 400 (Text ''Webhook Error: No signatures found''), new_world)"
proof -
  have 1: "constructEvent (demo_env transport_down [item ''price_arch'']) ''{}'' None =
             Inl (JsError ''StripeSignatureVerificationError'' ''No signatures found'')"
    by (simp add: demo_env_def)
  have 2: "constructEvent (demo_env transport_down [item ''price_arch'']) ''{}'' (Some ''t=1,v1=bad'') =
             Inl (JsError ''StripeSignatureVerificationError'' ''No signatures found'')"
    by (simp add: demo_env_def)
  show ?thesis
    using signature_rejected_first[OF 1] signature_rejected_first[OF 2] by simp
qed

lemma send3_posts: "posts (snd (sendEmailWithRetry tr to c 3)) \<le> 3"
  by (simp add: sendEmailWithRetry_3 posts_def split: option.splits)

lemma send3_waits: "prefix (waits (snd (sendEmailWithRetry tr to c 3))) [Some 1000, Some 2000]"
  by (simp add: sendEmailWithRetry_3 waits_def List.map_filter_def split: option.splits)

text \<open>
  Claim C5, as amended. When \<open>handleCheckoutCompleted\<close> reaches the notification, the
  send makes at most three POSTs to the transport, stopping at the first that
  succeeds, with a wait of 1 s between the first and the second and a wait of 2 s
  between the second and the third (the third entry of the delay table, 4 s, is
  never used with three attempts). If one of the three attempts succeeds, the
  failed-email file is left as it was. If all three fail and the data directory
  exists, exactly one entry is appended to the failed-email file, with the
  recipient, the product name and the message of the error of the third attempt.
\<close>

theorem notification_retry:
  assumes items: "listLineItems env (session_id session) = Inr lineItems"
      and email: "js_or (customer_details_email session) (customer_email session) = Some recipient"
                 "recipient \<noteq> []"
      and notif: "checkout_notification names links (purchased_price_ids lineItems) = Inr (Some (productName, sortedKeys))"
      and run: "handleCheckoutCompleted names links env session w = (thrown, w1)"
  shows "(let post = SendGridPost recipient (EmailContent productName sortedKeys (loadZoomMeetings env));
              start = effects w @ [StripeListLineItems (session_id session), ReadZoomMeetings,
                                   Dispatch recipient]
          in (try_send (transport env 0) = None \<longrightarrow>
                thrown = None \<and> failed_emails_json w1 = failed_emails_json w \<and>
                effects w1 = start @ [post]) \<and>
             (try_send (transport env 0) \<noteq> None \<and> try_send (transport env 1) = None \<longrightarrow>
                thrown = None \<and> failed_emails_json w1 = failed_emails_json w \<and>
                effects w1 = start @ [post, Sleep (Some 1000), post]) \<and>
             (try_send (transport env 0) \<noteq> None \<and> try_send (transport env 1) \<noteq> None \<and>
              try_send (transport env 2) = None \<longrightarrow>
                thrown = None \<and> failed_emails_json w1 = failed_emails_json w \<and>
                effects w1 = start @ [post, Sleep (Some 1000), post, Sleep (Some 2000), post]) \<and>
             (\<forall>e. try_send (transport env 0) \<noteq> None \<and> try_send (transport env 1) \<noteq> None \<and>
                  try_send (transport env 2) = Some e \<and> data_dir w \<longrightarrow>
                thrown = None \<and>
                failed_emails_json w1 =
                  Some ((case failed_emails_json w of None \<Rightarrow> [] | Some fs \<Rightarrow> fs) @
                        [\<lparr>fe_email = recipient, fe_product_name = productName,
                          fe_error = (if err_message e \<noteq> [] then err_message e else error_to_string e),
                          fe_timestamp = toISOString env\<rparr>]) \<and>
                effects w1 = start @ [post, Sleep (Some 1000), post, Sleep (Some 2000), post,
                                      WriteFailedEmails]))"
proof -
  let ?c = "EmailContent productName sortedKeys (loadZoomMeetings env)"
  let ?s = "sendEmailWithRetry (transport env) recipient ?c 3"
  let ?w3 = "emit (StripeListLineItems (session_id session) # ReadZoomMeetings # snd ?s) w"
  have r: "(thrown, w1) = (case fst ?s of
                    Thrown error \<Rightarrow> recordFailedEmail (toISOString env) recipient productName error ?w3
                  | _ \<Rightarrow> (None, ?w3))"
    using handle_dispatch[OF items email notif, of w] run by (simp add: split_beta Let_def)
  have a: "thrown = None \<and> failed_emails_json w1 = failed_emails_json w \<and>
           effects w1 = effects w @ [StripeListLineItems (session_id session), ReadZoomMeetings,
                                     Dispatch recipient, SendGridPost recipient ?c]"
    if "try_send (transport env 0) = None"
    using r that by (simp add: sendEmailWithRetry_3 emit_def)
  have b: "thrown = None \<and> failed_emails_json w1 = failed_emails_json w \<and>
           effects w1 = effects w @ [StripeListLineItems (session_id session), ReadZoomMeetings,
                                     Dispatch recipient, SendGridPost recipient ?c,
                                     Sleep (Some 1000), SendGridPost recipient ?c]"
    if "try_send (transport env 0) \<noteq> None \<and> try_send (transport env 1) = None"
    using r that by (auto simp: sendEmailWithRetry_3 emit_def)
  have c: "thrown = None \<and> failed_emails_json w1 = failed_emails_json w \<and>
           effects w1 = effects w @ [StripeListLineItems (session_id session), ReadZoomMeetings,
                                     Dispatch recipient, SendGridPost recipient ?c,
                                     Sleep (Some 1000), SendGridPost recipient ?c,
                                     Sleep (Some 2000), SendGridPost recipient ?c]"
    if "try_send (transport env 0) \<noteq> None \<and> try_send (transport env 1) \<noteq> None \<and>
        try_send (transport env 2) = None"
    using r that by (auto simp: sendEmailWithRetry_3 emit_def)
  have d: "thrown = None \<and>
           failed_emails_json w1 =
             Some ((case failed_emails_json w of None \<Rightarrow> [] | Some fs \<Rightarrow> fs) @
                   [\<lparr>fe_email = recipient, fe_product_name = productName,
                     fe_error = (if err_message e \<noteq> [] then err_message e else error_to_string e),
                     fe_timestamp = toISOString env\<rparr>]) \<and>
           effects w1 = effects w @ [StripeListLineItems (session_id session), ReadZoomMeetings,
                                     Dispatch recipient, SendGridPost recipient ?c,
                                     Sleep (Some 1000), SendGridPost recipient ?c,
                                     Sleep (Some 2000), SendGridPost recipient ?c, WriteFailedEmails]"
    if "try_send (transport env 0) \<noteq> None \<and> try_send (transport env 1) \<noteq> None \<and>
        try_send (transport env 2) = Some e \<and> data_dir w" for e
    using r that by (auto simp: sendEmailWithRetry_3 emit_def recordFailedEmail_def Let_def)
  show ?thesis
    unfolding Let_def using a b c d by (simp only: append_Cons append_Nil append_assoc) blast
qed

lemma down: "try_send (transport_down k) = Some (JsError ''Error'' ''SendGrid API Error: 503 down'')"
  unfolding transport_down_def by code_simp

lemma third: "try_send (transport_third 0) = Some (JsError ''TypeError'' ''fetch failed'')"
  "try_send (transport_third 1) = Some (JsError ''TypeError'' ''fetch failed'')"
  "try_send (transport_third (Suc 0)) = Some (JsError ''TypeError'' ''fetch failed'')"
  "try_send (transport_third 2) = None"
  by (simp_all add: transport_third_def try_send_def)

lemma demo_note: "checkout_notification (PRODUCT_NAME_MAP demo_config) (ZOOM_LINK_MAP demo_config)
    (purchased_price_ids [item ''price_arch'']) = Inr (Some (Own PracticalAiArchitectureSeminar, [''C'', ''F'']))"
  by (simp add: checkout_notification_def purchased_price_ids_def item_def truthy_def or_empty_def
    PRODUCT_NAME_MAP_def ZOOM_LINK_MAP_def demo_config_def prop_key_def object_literal_def set_add_def)

text \<open>
  The claim C5 as stated has waits of 1 s, 2 s and 4 s between the attempts. With a
  transport that fails every time the three attempts are made, the error is thrown,
  and the waits are 1 s and 2 s only. On a fresh installation, where the data
  directory does not exist yet, the same purchase ends with the error of the write
  and without a failed-email entry.
\<close>

theorem waits_counterexample:
  "fst (sendEmailWithRetry transport_down ''buyer@example.com'' demo_content 3) =
     Thrown (JsError ''Error'' ''SendGrid API Error: 503 down'') \<and>
   posts (snd (sendEmailWithRetry transport_down ''buyer@example.com'' demo_content 3)) = 3 \<and>
   waits (snd (sendEmailWithRetry transport_down ''buyer@example.com'' demo_content 3)) =
     [Some 1000, Some 2000] \<and>
   Sleep (Some 4000) \<notin> set (snd (sendEmailWithRetry transport_down ''buyer@example.com'' demo_content 3)) \<and>
   fst (handleCheckoutCompleted (PRODUCT_NAME_MAP demo_config) (ZOOM_LINK_MAP demo_config)
          (demo_env transport_down [item ''price_arch'']) demo_session new_world) = Some ENOENT \<and>
   failed_emails_json (snd (handleCheckoutCompleted (PRODUCT_NAME_MAP demo_config) (ZOOM_LINK_MAP demo_config)
          (demo_env transport_down [item ''price_arch'']) demo_session new_world)) = None"
proof -
  let ?down = "demo_env transport_down [item ''price_arch'']"
  have i: "listLineItems ?down (session_id demo_session) = Inr [item ''price_arch'']"
    by (simp add: demo_env_def)
  have e: "js_or (customer_details_email demo_session) (customer_email demo_session) = Some ''Buyer@example.com''"
    by (simp add: demo_session_def js_or_def truthy_def)
  have ne: "''Buyer@example.com'' \<noteq> []" by simp
  have t: "transport ?down = transport_down" by (simp add: demo_env_def)
  have h: "handleCheckoutCompleted (PRODUCT_NAME_MAP demo_config) (ZOOM_LINK_MAP demo_config)
             ?down demo_session new_world =
           (Some ENOENT,
            emit [StripeListLineItems ''cs_1'', ReadZoomMeetings, Dispatch ''Buyer@example.com'',
                  SendGridPost ''Buyer@example.com'' demo_content, Sleep (Some 1000),
                  SendGridPost ''Buyer@example.com'' demo_content, Sleep (Some 2000),
                  SendGridPost ''Buyer@example.com'' demo_content] new_world)"
    unfolding handle_dispatch[OF i e ne demo_note] t
    by (simp add: sendEmailWithRetry_3 down recordFailedEmail_def emit_def new_world_def
          demo_env_def demo_session_def demo_content_def)
  show ?thesis
    unfolding h
    by (simp add: sendEmailWithRetry_3 down posts_def waits_def List.map_filter_def emit_def new_world_def)
qed

theorem notification_retry_witness:
  "fst (handleCheckoutCompleted (PRODUCT_NAME_MAP demo_config) (ZOOM_LINK_MAP demo_config)
       (demo_env transport_down [item ''price_arch'']) demo_session ready_world) = None \<and>
   failed_emails_json (snd (handleCheckoutCompleted (PRODUCT_NAME_MAP demo_config) (ZOOM_LINK_MAP demo_config)
       (demo_env transport_down [item ''price_arch'']) demo_session ready_world)) =
     Some [\<lparr>fe_email = ''Buyer@example.com'', fe_product_name = Own PracticalAiArchitectureSeminar,
            fe_error = ''SendGrid API Error: 503 down'', fe_timestamp = ''2025-01-01T00:00:00.000Z''\<rparr>] \<and>
   effects (snd (handleCheckoutCompleted (PRODUCT_NAME_MAP demo_config) (ZOOM_LINK_MAP demo_config)
       (demo_env transport_down [item ''price_arch'']) demo_session ready_world)) =
     [StripeListLineItems ''cs_1'', ReadZoomMeetings, Dispatch ''Buyer@example.com'',
      SendGridPost ''Buyer@example.com'' demo_content, Sleep (Some 1000),
      SendGridPost ''Buyer@example.com'' demo_content, Sleep (Some 2000),
      SendGridPost ''Buyer@example.com'' demo_content, WriteFailedEmails] \<and>
   failed_emails_json (snd (handleCheckoutCompleted (PRODUCT_NAME_MAP demo_config) (ZOOM_LINK_MAP demo_config)
       (demo_env transport_third [item ''price_arch'']) demo_session ready_world)) = None \<and>
   effects (snd (handleCheckoutCompleted (PRODUCT_NAME_MAP demo_config) (ZOOM_LINK_MAP demo_config)
       (demo_env transport_third [item ''price_arch'']) demo_session ready_world)) =
     [StripeListLineItems ''cs_1'', ReadZoomMeetings, Dispatch ''Buyer@example.com'',
      SendGridPost ''Buyer@example.com'' demo_content, Sleep (Some 1000),
      SendGridPost ''Buyer@example.com'' demo_content, Sleep (Some 2000),
      SendGridPost ''Buyer@example.com'' demo_content]"
proof -
  let ?N = "PRODUCT_NAME_MAP demo_config" and ?L = "ZOOM_LINK_MAP demo_config"
  let ?down = "demo_env transport_down [item ''price_arch'']"
  let ?third = "demo_env transport_third [item ''price_arch'']"
  let ?r1 = "handleCheckoutCompleted ?N ?L ?down demo_session ready_world"
  let ?r2 = "handleCheckoutCompleted ?N ?L ?third demo_session ready_world"
  have i1: "listLineItems ?down (session_id demo_session) = Inr [item ''price_arch'']"
    and i2: "listLineItems ?third (session_id demo_session) = Inr [item ''price_arch'']"
    by (simp_all add: demo_env_def)
  have e: "js_or (customer_details_email demo_session) (customer_email demo_session) = Some ''Buyer@example.com''"
    by (simp add: demo_session_def js_or_def truthy_def)
  have ne: "''Buyer@example.com'' \<noteq> []" by simp
  have r1: "?r1 = (fst ?r1, snd ?r1)" and r2: "?r2 = (fst ?r2, snd ?r2)"
    by simp_all
  have t1: "transport ?down = transport_down" and t2: "transport ?third = transport_third"
    and ts: "toISOString ?down = ''2025-01-01T00:00:00.000Z''"
    and z1: "loadZoomMeetings ?down = []" and z2: "loadZoomMeetings ?third = []"
    by (simp_all add: demo_env_def)
  have sid: "session_id demo_session = ''cs_1''" by (simp add: demo_session_def)
  have rw: "data_dir ready_world" "effects ready_world = []" "failed_emails_json ready_world = None"
    by (simp_all add: ready_world_def)
  from notification_retry[OF i1 e ne demo_note r1]
  have a: "fst ?r1 = None \<and>
     failed_emails_json (snd ?r1) =
       Some [\<lparr>fe_email = ''Buyer@example.com'', fe_product_name = Own PracticalAiArchitectureSeminar,
              fe_error = ''SendGrid API Error: 503 down'', fe_timestamp = ''2025-01-01T00:00:00.000Z''\<rparr>] \<and>
     effects (snd ?r1) =
       [StripeListLineItems ''cs_1'', ReadZoomMeetings, Dispatch ''Buyer@example.com'',
        SendGridPost ''Buyer@example.com'' demo_content, Sleep (Some 1000),
        SendGridPost ''Buyer@example.com'' demo_content, Sleep (Some 2000),
        SendGridPost ''Buyer@example.com'' demo_content, WriteFailedEmails]"
    unfolding t1 ts z1 sid Let_def by (simp add: down rw demo_content_def)
  from notification_retry[OF i2 e ne demo_note r2]
  have b: "failed_emails_json (snd ?r2) = None \<and>
     effects (snd ?r2) =
       [StripeListLineItems ''cs_1'', ReadZoomMeetings, Dispatch ''Buyer@example.com'',
        SendGridPost ''Buyer@example.com'' demo_content, Sleep (Some 1000),
        SendGridPost ''Buyer@example.com'' demo_content, Sleep (Some 2000),
        SendGridPost ''Buyer@example.com'' demo_content]"
    unfolding t2 z2 sid Let_def by (simp add: third rw demo_content_def)
  show ?thesis using a b by simp
qed

section \<open>Properties of the catalog union\<close>

lemma set_add_set: "set (set_add x s) = insert x (set s)"
  by (auto simp: set_add_def)

lemma set_add_distinct: "distinct s \<Longrightarrow> distinct (set_add x s)"
  by (simp add: set_add_def)

lemma fold_set_add_set: "set (fold set_add xs s) = set xs \<union> set s"
  by (induction xs arbitrary: s) (auto simp: set_add_set)

lemma fold_set_add_distinct: "distinct s \<Longrightarrow> distinct (fold set_add xs s)"
  by (induction xs arbitrary: s) (auto simp: set_add_distinct)

lemma new_Set_set: "set (new_Set xs) = set xs"
  by (simp add: new_Set_def fold_set_add_set)

lemma collect_keys_distinct:
  "collect_keys names links ids (pn, mk) = Inr (pn', mk') \<Longrightarrow> distinct mk \<Longrightarrow> distinct mk'"
proof (induction ids arbitrary: pn mk)
  case Nil
  then show ?case by simp
next
  case (Cons p ids)
  then show ?case
    by (auto simp: Let_def fold_set_add_distinct split: property.splits if_splits)
qed

lemma collect_keys_own:
  assumes "\<forall>p\<in>set ids. \<exists>ks. object_literal links p = Own ks"
  shows "\<exists>pn' mk'. collect_keys names links ids (pn, mk) = Inr (pn', mk') \<and>
           set mk' = set mk \<union> (\<Union>p\<in>set ids. case object_literal links p of Own ks \<Rightarrow> set ks | _ \<Rightarrow> {}) \<and>
           (pn' = Absent \<longrightarrow> pn = Absent \<and> (\<forall>p\<in>set ids. object_literal names p = Absent))"
  using assms
proof (induction ids arbitrary: pn mk)
  case Nil
  then show ?case by simp
next
  case (Cons p ids)
  from Cons.prems obtain ks where ks: "object_literal links p = Own ks" by auto
  let ?pn1 = "if object_literal names p \<noteq> Absent then object_literal names p else pn"
  from Cons.prems have "\<forall>p\<in>set ids. \<exists>ks. object_literal links p = Own ks" by simp
  from Cons.IH[OF this, of ?pn1 "fold set_add ks mk"]
  obtain pn' mk' where r: "collect_keys names links ids (?pn1, fold set_add ks mk) = Inr (pn', mk')"
    and s: "set mk' = set (fold set_add ks mk) \<union> (\<Union>p\<in>set ids. case object_literal links p of Own ks \<Rightarrow> set ks | _ \<Rightarrow> {})"
    and a: "pn' = Absent \<longrightarrow> ?pn1 = Absent \<and> (\<forall>p\<in>set ids. object_literal names p = Absent)"
    by blast
  have 1: "collect_keys names links (p # ids) (pn, mk) = Inr (pn', mk')"
    using r ks by (simp add: Let_def)
  have 2: "set mk' = set mk \<union> (\<Union>p\<in>set (p # ids). case object_literal links p of Own ks \<Rightarrow> set ks | _ \<Rightarrow> {})"
    using s ks by (auto simp: fold_set_add_set)
  have 3: "pn' = Absent \<longrightarrow> pn = Absent \<and> (\<forall>p\<in>set (p # ids). object_literal names p = Absent)"
    using a by (auto split: if_splits)
  show ?case using 1 2 3 by blast
qed

lemma notification_has_F:
  assumes "checkout_notification names links ids = Inr (Some (pn, keys))"
  shows "''F'' \<in> set keys \<and> sorted keys \<and> distinct keys"
proof -
  from assms obtain mk where c: "collect_keys names links ids (Absent, []) = Inr (pn, mk)"
    and k: "keys = sort (set_add ''F'' mk)"
    by (auto simp: checkout_notification_def split: sum.splits if_splits)
  from collect_keys_distinct[OF c] have "distinct mk" by simp
  then show ?thesis by (simp add: k set_add_set set_add_distinct)
qed

lemma send_loop_effects:
  "set (snd (send_loop tr to c maxRetries attempt)) \<subseteq> insert (SendGridPost to c) (range Sleep)"
proof (induction tr to c maxRetries attempt rule: send_loop.induct)
  case (1 tr to c maxRetries attempt)
  show ?case
  proof (cases "attempt < maxRetries")
    case False
    then show ?thesis by (subst send_loop.simps) simp
  next
    case lt: True
    show ?thesis
    proof (cases "try_send (tr attempt)")
      case None
      with lt show ?thesis by (subst send_loop.simps) simp
    next
      case (Some e)
      show ?thesis
      proof (cases "attempt < maxRetries - 1")
        case True
        with 1[OF lt Some True] lt Some show ?thesis
          by (subst send_loop.simps) (auto simp: split_beta)
      next
        case False
        with lt Some show ?thesis by (subst send_loop.simps) simp
      qed
    qed
  qed
qed

lemma send3_head:
  "\<exists>es. snd (sendEmailWithRetry tr to c 3) = Dispatch to # SendGridPost to c # es"
  by (simp add: sendEmailWithRetry_3 split: option.splits)

lemma handle_effects:
  "\<exists>es. effects (snd (handleCheckoutCompleted names links env session w)) = effects w @ es \<and>
        (\<forall>to pn keys z. SendGridPost to (EmailContent pn keys z) \<in> set es \<longrightarrow>
            (\<exists>lineItems. listLineItems env (session_id session) = Inr lineItems \<and>
               checkout_notification names links (purchased_price_ids lineItems) = Inr (Some (pn, keys)))) \<and>
        (notifies names links env session \<longrightarrow> 1 \<le> posts es)"
proof (cases "notifies names links env session")
  case False
  from handle_quiet[OF False, of w] False show ?thesis by (simp add: emit_def)
next
  case True
  then obtain lineItems recipient pn keys where
    i: "listLineItems env (session_id session) = Inr lineItems"
    and e: "js_or (customer_details_email session) (customer_email session) = Some recipient" "recipient \<noteq> []"
    and n: "checkout_notification names links (purchased_price_ids lineItems) = Inr (Some (pn, keys))"
    by (auto simp: notifies_def truthy_def split: sum.splits option.splits)
  let ?c = "EmailContent pn keys (loadZoomMeetings env)"
  let ?s = "sendEmailWithRetry (transport env) recipient ?c 3"
  have sub: "set (snd ?s) \<subseteq> insert (Dispatch recipient) (insert (SendGridPost recipient ?c) (range Sleep))"
    using send_loop_effects[of "transport env" recipient ?c 3 0]
    by (auto simp: sendEmailWithRetry_def split_beta)
  have eff: "effects (snd (handleCheckoutCompleted names links env session w)) =
          effects w @ StripeListLineItems (session_id session) # ReadZoomMeetings # snd ?s @
            (case fst ?s of Thrown error \<Rightarrow> if data_dir w then [WriteFailedEmails] else [] | _ \<Rightarrow> [])"
    by (simp add: handle_dispatch[OF i e n] split_beta Let_def emit_def recordFailedEmail_def
          split: send_result.splits)
  let ?es = "StripeListLineItems (session_id session) # ReadZoomMeetings # snd ?s @
            (case fst ?s of Thrown error \<Rightarrow> if data_dir w then [WriteFailedEmails] else [] | _ \<Rightarrow> [])"
  have "\<forall>to pn' keys' z. SendGridPost to (EmailContent pn' keys' z) \<in> set ?es \<longrightarrow>
            (\<exists>lineItems. listLineItems env (session_id session) = Inr lineItems \<and>
               checkout_notification names links (purchased_price_ids lineItems) = Inr (Some (pn', keys')))"
    using sub i n by (auto split: send_result.splits)
  moreover have "1 \<le> posts ?es"
    using send3_head[of "transport env" recipient ?c] by (auto simp: posts_def)
  ultimately show ?thesis using eff by blast
qed

lemma zoom_own_name:
  "object_literal (ZOOM_LINK_MAP cfg) p = Own ks \<Longrightarrow> object_literal (PRODUCT_NAME_MAP cfg) p \<noteq> Absent"
  by (auto simp: object_literal_def ZOOM_LINK_MAP_def PRODUCT_NAME_MAP_def split: option.splits if_splits)

text \<open>
  Claim C6. For a purchase-completed event whose purchased price ids are two ids that
  the link table maps to \<open>C, F\<close> and to \<open>D, F\<close>, the notification is built with the
  key list \<open>C, D, F\<close>: the union of the two lists, without duplicates, in sorted
  order. The handler's first POST carries exactly that list.
\<close>

theorem catalog_union:
  assumes p1: "object_literal (ZOOM_LINK_MAP cfg) p1 = Own [''C'', ''F'']"
      and p2: "object_literal (ZOOM_LINK_MAP cfg) p2 = Own [''D'', ''F'']"
      and ids: "set (purchased_price_ids lineItems) = {p1, p2}"
      and items: "listLineItems env (session_id session) = Inr lineItems"
      and email: "js_or (customer_details_email session) (customer_email session) = Some recipient"
                 "recipient \<noteq> []"
      and run: "handleCheckoutCompleted (PRODUCT_NAME_MAP cfg) (ZOOM_LINK_MAP cfg) env session w = (thrown, w1)"
  shows "\<exists>pn es. pn \<noteq> Absent \<and>
           checkout_notification (PRODUCT_NAME_MAP cfg) (ZOOM_LINK_MAP cfg) (purchased_price_ids lineItems) =
             Inr (Some (pn, [''C'', ''D'', ''F''])) \<and>
           effects w1 = effects w @ StripeListLineItems (session_id session) # ReadZoomMeetings #
             Dispatch recipient #
             SendGridPost recipient (EmailContent pn [''C'', ''D'', ''F''] (loadZoomMeetings env)) # es"
proof -
  let ?N = "PRODUCT_NAME_MAP cfg" and ?L = "ZOOM_LINK_MAP cfg"
  let ?ids = "purchased_price_ids lineItems"
  have own: "\<forall>p\<in>set ?ids. \<exists>ks. object_literal ?L p = Own ks"
    using p1 p2 ids by auto
  from collect_keys_own[OF own, of ?N Absent "[]"]
  obtain pn mk where c: "collect_keys ?N ?L ?ids (Absent, []) = Inr (pn, mk)"
    and s: "set mk = set [] \<union> (\<Union>p\<in>set ?ids. case object_literal ?L p of Own ks \<Rightarrow> set ks | _ \<Rightarrow> {})"
    and a: "pn = Absent \<longrightarrow> Absent = (Absent :: product property) \<and> (\<forall>p\<in>set ?ids. object_literal ?N p = Absent)"
    by blast
  have "p1 \<in> set ?ids" using ids by simp
  then have "object_literal ?N p1 = Absent" if "pn = Absent" using a that by blast
  with zoom_own_name[OF p1] have pn: "pn \<noteq> Absent" by blast
  have smk: "set mk = {''C'', ''D'', ''F''}"
    using s ids p1 p2 by auto
  have ne: "mk \<noteq> []"
  proof
    assume "mk = []"
    with smk show False by simp
  qed
  have dmk: "distinct mk" using collect_keys_distinct[OF c] by simp
  have "sort (set_add ''F'' mk) = [''C'', ''D'', ''F'']"
  proof (rule sorted_distinct_set_unique)
    show "sorted (sort (set_add ''F'' mk))" by simp
    show "distinct (sort (set_add ''F'' mk))" using dmk by (simp add: set_add_distinct)
    show "sorted [''C'', ''D'', ''F'']" by simp
    show "distinct [''C'', ''D'', ''F'']" by simp
    show "set (sort (set_add ''F'' mk)) = set [''C'', ''D'', ''F'']"
      using smk by (auto simp: set_add_set)
  qed
  then have n: "checkout_notification ?N ?L ?ids = Inr (Some (pn, [''C'', ''D'', ''F'']))"
    using c pn ne by (simp add: checkout_notification_def)
  let ?c = "EmailContent pn [''C'', ''D'', ''F''] (loadZoomMeetings env)"
  obtain es where es: "snd (sendEmailWithRetry (transport env) recipient ?c 3) =
      Dispatch recipient # SendGridPost recipient ?c # es"
    using send3_head by blast
  let ?tail = "es @ (case fst (sendEmailWithRetry (transport env) recipient ?c 3) of
                  Thrown error \<Rightarrow> if data_dir w then [WriteFailedEmails] else [] | _ \<Rightarrow> [])"
  have w1: "w1 = snd (handleCheckoutCompleted ?N ?L env session w)" using run by simp
  have eff: "effects w1 = effects w @ StripeListLineItems (session_id session) # ReadZoomMeetings #
          Dispatch recipient # SendGridPost recipient ?c # ?tail"
    unfolding w1 handle_dispatch[OF items email n]
    by (simp add: es split_beta Let_def emit_def recordFailedEmail_def split: send_result.splits)
  show ?thesis
    by (rule exI[of _ pn], rule exI[of _ ?tail]) (simp only: pn n eff not_False_eq_True simp_thms)
qed

theorem catalog_union_witness:
  "checkout_notification (PRODUCT_NAME_MAP demo_config) (ZOOM_LINK_MAP demo_config)
      (purchased_price_ids [item ''price_image'', item ''price_arch'', item ''price_image'']) =
     Inr (Some (Own ImageGenAiSeminar, [''C'', ''D'', ''F'']))"
proof -
  let ?items = "[item ''price_image'', item ''price_arch'', item ''price_image'']"
  let ?env = "demo_env transport_third ?items"
  let ?run = "handleCheckoutCompleted (PRODUCT_NAME_MAP demo_config) (ZOOM_LINK_MAP demo_config)
                ?env demo_session new_world"
  have p1: "object_literal (ZOOM_LINK_MAP demo_config) ''price_arch'' = Own [''C'', ''F'']"
    and p2: "object_literal (ZOOM_LINK_MAP demo_config) ''price_image'' = Own [''D'', ''F'']"
    by (simp_all add: object_literal_def ZOOM_LINK_MAP_def demo_config_def prop_key_def)
  have ids: "set (purchased_price_ids ?items) = {''price_arch'', ''price_image''}"
    by (auto simp: purchased_price_ids_def item_def truthy_def or_empty_def)
  have items: "listLineItems ?env (session_id demo_session) = Inr ?items"
    by (simp add: demo_env_def)
  have e: "js_or (customer_details_email demo_session) (customer_email demo_session) = Some ''Buyer@example.com''"
    by (simp add: demo_session_def js_or_def truthy_def)
  have ne: "''Buyer@example.com'' \<noteq> []" by simp
  have run: "?run = (fst ?run, snd ?run)" by simp
  from catalog_union[OF p1 p2 ids items e ne run]
  obtain pn where n: "checkout_notification (PRODUCT_NAME_MAP demo_config) (ZOOM_LINK_MAP demo_config)
      (purchased_price_ids ?items) = Inr (Some (pn, [''C'', ''D'', ''F'']))"
    by blast
  have "pn = Own ImageGenAiSeminar"
    using n
    by (simp add: checkout_notification_def purchased_price_ids_def item_def truthy_def or_empty_def
        PRODUCT_NAME_MAP_def ZOOM_LINK_MAP_def demo_config_def prop_key_def object_literal_def set_add_def)
  with n show ?thesis by simp
qed

text \<open>
  Claim C7. Whatever the catalog tables are, every POST that
  \<open>handleCheckoutCompleted\<close> makes to the mail transport carries a key list that
  contains \<open>F\<close>, and a POST is made whenever the purchase is not skipped: the key is
  added after the loop over the purchased items, so it is there also when no item's
  list has it.
\<close>

theorem shared_key_always_included:
  assumes run: "handleCheckoutCompleted names links env session w = (thrown, w1)"
  shows "\<exists>es. effects w1 = effects w @ es \<and>
           (\<forall>to pn keys z. SendGridPost to (EmailContent pn keys z) \<in> set es \<longrightarrow> ''F'' \<in> set keys) \<and>
           (notifies names links env session \<longrightarrow> 1 \<le> posts es)"
proof -
  from handle_effects[of names links env session w] run
  obtain es where eff: "effects w1 = effects w @ es"
    and src: "\<forall>to pn keys z. SendGridPost to (EmailContent pn keys z) \<in> set es \<longrightarrow>
            (\<exists>lineItems. listLineItems env (session_id session) = Inr lineItems \<and>
               checkout_notification names links (purchased_price_ids lineItems) = Inr (Some (pn, keys)))"
    and p: "notifies names links env session \<longrightarrow> 1 \<le> posts es"
    by auto
  have f: "\<forall>to pn keys z. SendGridPost to (EmailContent pn keys z) \<in> set es \<longrightarrow> ''F'' \<in> set keys"
    using src notification_has_F by blast
  show ?thesis using eff f p by blast
qed

theorem shared_key_always_included_witness:
  "\<exists>keys. SendGridPost ''Buyer@example.com'' (EmailContent (Own ImageGenAiSeminar) keys []) \<in>
            set (effects (snd (handleCheckoutCompleted names_x links_without_F
                   (demo_env transport_third [item ''price_x'']) demo_session new_world))) \<and>
          ''F'' \<in> set keys \<and> ''F'' \<notin> set (concat (map snd links_without_F))"
proof -
  let ?env = "demo_env transport_third [item ''price_x'']"
  let ?run = "handleCheckoutCompleted names_x links_without_F ?env demo_session new_world"
  let ?c = "EmailContent (Own ImageGenAiSeminar) [''C'', ''F''] []"
  have i: "listLineItems ?env (session_id demo_session) = Inr [item ''price_x'']"
    by (simp add: demo_env_def)
  have e: "js_or (customer_details_email demo_session) (customer_email demo_session) = Some ''Buyer@example.com''"
    by (simp add: demo_session_def js_or_def truthy_def)
  have ne: "''Buyer@example.com'' \<noteq> []" by simp
  have n: "checkout_notification names_x links_without_F (purchased_price_ids [item ''price_x'']) =
             Inr (Some (Own ImageGenAiSeminar, [''C'', ''F'']))"
    by (simp add: checkout_notification_def purchased_price_ids_def item_def truthy_def or_empty_def
          names_x_def links_without_F_def object_literal_def set_add_def)
  have env: "transport ?env = transport_third" "loadZoomMeetings ?env = []"
    by (simp_all add: demo_env_def)
  have eff: "effects (snd ?run) =
      [StripeListLineItems ''cs_1'', ReadZoomMeetings, Dispatch ''Buyer@example.com'',
       SendGridPost ''Buyer@example.com'' ?c, Sleep (Some 1000),
       SendGridPost ''Buyer@example.com'' ?c, Sleep (Some 2000),
       SendGridPost ''Buyer@example.com'' ?c]"
    unfolding handle_dispatch[OF i e ne n] env
    by (simp add: sendEmailWithRetry_3 third emit_def new_world_def demo_session_def)
  have run: "?run = (fst ?run, snd ?run)" by simp
  from shared_key_always_included[OF run]
  obtain es where es: "effects (snd ?run) = effects new_world @ es"
    and f: "\<forall>to pn keys z. SendGridPost to (EmailContent pn keys z) \<in> set es \<longrightarrow> ''F'' \<in> set keys"
    by blast
  from es eff have "SendGridPost ''Buyer@example.com'' ?c \<in> set es"
    by (simp add: new_world_def)
  with f have "''F'' \<in> set [''C'', ''F'']" by blast
  moreover have "SendGridPost ''Buyer@example.com'' ?c \<in> set (effects (snd ?run))"
    unfolding eff by simp
  moreover have "''F'' \<notin> set (concat (map snd links_without_F))"
    by (simp add: links_without_F_def)
  ultimately show ?thesis by blast
qed

section \<open>Properties of the idempotency store\<close>

lemma handle_summary:
  "\<exists>es. effects (snd (handleCheckoutCompleted names links env session w)) = effects w @ es \<and>
        processed_events_json (snd (handleCheckoutCompleted names links env session w)) = processed_events_json w \<and>
        dispatches es = (if notifies names links env session then 1 else 0) \<and>
        posts es \<le> 3 \<and>
        (\<not> notifies names links env session \<longrightarrow>
           posts es = 0 \<and>
           failed_emails_json (snd (handleCheckoutCompleted names links env session w)) = failed_emails_json w) \<and>
        failed_count (snd (handleCheckoutCompleted names links env session w))
          \<le> failed_count w + dispatches es"
proof (cases "notifies names links env session")
  case False
  from handle_quiet[OF False, of w] False show ?thesis
    by (simp add: emit_def posts_def dispatches_def failed_count_def)
next
  case True
  then obtain lineItems recipient pn keys where
    i: "listLineItems env (session_id session) = Inr lineItems"
    and e: "js_or (customer_details_email session) (customer_email session) = Some recipient" "recipient \<noteq> []"
    and n: "checkout_notification names links (purchased_price_ids lineItems) = Inr (Some (pn, keys))"
    by (auto simp: notifies_def truthy_def split: sum.splits option.splits)
  show ?thesis
    unfolding handle_dispatch[OF i e n]
    using True
    by (simp add: sendEmailWithRetry_3 emit_def recordFailedEmail_def dispatches_def posts_def
          failed_count_def Let_def split: option.splits)
qed

lemma load_emit: "loadProcessedEvents (emit es w) = loadProcessedEvents w"
  by (simp add: loadProcessedEvents_def emit_def)

lemma load_saved: "event_id ev \<in> set (loadProcessedEvents (saveProcessedEvent (event_id ev) w))"
  by (simp add: saveProcessedEvent_def loadProcessedEvents_def emit_def Let_def new_Set_set set_add_set
        split: option.splits)

lemma redelivery:
  assumes "constructEvent env body sig = Inr ev" "event_id ev \<in> set (loadProcessedEvents w)"
  shows "stripe_webhook names links env body sig w =
           (Response 200 (Json_received (Some ''already_processed'')), emit [ReadProcessedEvents] w)"
  using assms by (simp add: stripe_webhook_def Let_def load_emit)

lemma first_delivery:
  assumes "constructEvent env body sig = Inr ev" "event_id ev \<notin> set (loadProcessedEvents w)"
  shows "stripe_webhook names links env body sig w =
           (let (thrown, w2) =
                  (if event_type ev = ''checkout.session.completed''
                   then handleCheckoutCompleted names links env (event_object ev) (emit [ReadProcessedEvents] w)
                   else (None, emit [ReadProcessedEvents] w))
            in case thrown of
                 Some err \<Rightarrow> (Response 500 (Text ''Webhook handler error''), w2)
               | None \<Rightarrow> (Response 200 (Json_received None), saveProcessedEvent (event_id ev) w2))"
  using assms by (simp add: stripe_webhook_def Let_def load_emit)

lemma first_summary:
  assumes c: "constructEvent env body sig = Inr ev"
      and r: "stripe_webhook names links env body sig w = (Response 200 (Json_received None), w1)"
  shows "event_id ev \<notin> set (loadProcessedEvents w) \<and>
         event_id ev \<in> set (loadProcessedEvents w1) \<and>
         processed_events_json w1 = Some (loadProcessedEvents w @ [event_id ev]) \<and>
         (\<exists>es. effects w1 = effects w @ es \<and>
               dispatches es = (if event_type ev = ''checkout.session.completed'' \<and>
                                   notifies names links env (event_object ev) then 1 else 0) \<and>
               posts es \<le> 3 \<and>
               (\<not> (event_type ev = ''checkout.session.completed'' \<and>
                    notifies names links env (event_object ev)) \<longrightarrow>
                  posts es = 0 \<and> failed_emails_json w1 = failed_emails_json w) \<and>
               failed_count w1 \<le> failed_count w + dispatches es)"
proof -
  let ?w0 = "emit [ReadProcessedEvents] w"
  let ?h = "if event_type ev = ''checkout.session.completed''
            then handleCheckoutCompleted names links env (event_object ev) ?w0
            else (None, ?w0)"
  have new: "event_id ev \<notin> set (loadProcessedEvents w)"
  proof
    assume "event_id ev \<in> set (loadProcessedEvents w)"
    from redelivery[OF c this, of names links] r show False by simp
  qed
  from first_delivery[OF c new, of names links] r
  have w1: "w1 = saveProcessedEvent (event_id ev) (snd ?h)"
    by (simp add: split_beta split: option.splits if_splits)
  have "\<exists>es. effects (snd ?h) = effects ?w0 @ es \<and>
        processed_events_json (snd ?h) = processed_events_json ?w0 \<and>
        dispatches es = (if event_type ev = ''checkout.session.completed'' \<and>
                            notifies names links env (event_object ev) then 1 else 0) \<and>
        posts es \<le> 3 \<and>
        (\<not> (event_type ev = ''checkout.session.completed'' \<and>
             notifies names links env (event_object ev)) \<longrightarrow>
           posts es = 0 \<and> failed_emails_json (snd ?h) = failed_emails_json ?w0) \<and>
        failed_count (snd ?h) \<le> failed_count ?w0 + dispatches es"
  proof (cases "event_type ev = ''checkout.session.completed''")
    case True
    with handle_summary[of names links env "event_object ev" ?w0] show ?thesis by simp
  next
    case False
    then show ?thesis by (simp add: dispatches_def posts_def)
  qed
  then obtain es where es: "effects (snd ?h) = effects ?w0 @ es"
    and pr: "processed_events_json (snd ?h) = processed_events_json ?w0"
    and d: "dispatches es = (if event_type ev = ''checkout.session.completed'' \<and>
                            notifies names links env (event_object ev) then 1 else 0)"
    and p: "posts es \<le> 3"
    and q: "\<not> (event_type ev = ''checkout.session.completed'' \<and>
             notifies names links env (event_object ev)) \<longrightarrow>
           posts es = 0 \<and> failed_emails_json (snd ?h) = failed_emails_json ?w0"
    and f: "failed_count (snd ?h) \<le> failed_count ?w0 + dispatches es"
    by blast
  let ?es = "ReadProcessedEvents # es @ [ReadProcessedEvents, WriteProcessedEvents]"
  have e1: "effects w1 = effects w @ ?es"
    using es by (simp add: w1 saveProcessedEvent_def emit_def Let_def)
  have e2: "dispatches ?es = dispatches es" "posts ?es = posts es"
    by (simp_all add: dispatches_def posts_def)
  have e3: "failed_emails_json w1 = failed_emails_json (snd ?h)" "failed_count w1 = failed_count (snd ?h)"
    by (simp_all add: w1 saveProcessedEvent_def emit_def Let_def failed_count_def)
  have e4: "failed_emails_json ?w0 = failed_emails_json w" "failed_count ?w0 = failed_count w"
    by (simp_all add: emit_def failed_count_def)
  have same: "loadProcessedEvents (snd ?h) = loadProcessedEvents w"
    using pr by (simp add: loadProcessedEvents_def emit_def)
  have stored: "processed_events_json w1 = Some (loadProcessedEvents w @ [event_id ev])"
    using new by (simp add: w1 saveProcessedEvent_def emit_def Let_def same set_add_def)
  have mem: "event_id ev \<in> set (loadProcessedEvents w1)"
    unfolding w1 by (rule load_saved)
  have "dispatches ?es = (if event_type ev = ''checkout.session.completed'' \<and>
                                   notifies names links env (event_object ev) then 1 else 0) \<and>
               posts ?es \<le> 3 \<and>
               (\<not> (event_type ev = ''checkout.session.completed'' \<and>
                    notifies names links env (event_object ev)) \<longrightarrow>
                  posts ?es = 0 \<and> failed_emails_json w1 = failed_emails_json w) \<and>
               failed_count w1 \<le> failed_count w + dispatches ?es"
    unfolding e2 e3 using d p q f unfolding e4 by blast
  with e1 new mem stored show ?thesis by blast
qed

text \<open>
  Claim C2. A verified event that was handled with success (the answer
  \<open>received\<close>) has its identifier in the store afterwards, and a second delivery
  with the same identifier, whatever its collaborators, is answered
  \<open>already_processed\<close> and does nothing but read the store. Over the two deliveries
  there is exactly one invocation of \<open>sendEmailWithRetry\<close> when the event is a
  completed checkout that is notified, and none otherwise; at most three POSTs and at
  most one failed-email entry are made.
\<close>

theorem webhook_idempotent:
  assumes first: "constructEvent env1 body1 sig1 = Inr ev"
      and again: "constructEvent env2 body2 sig2 = Inr ev2" "event_id ev2 = event_id ev"
      and r1: "stripe_webhook names links env1 body1 sig1 w = (Response 200 (Json_received None), w1)"
      and r2: "stripe_webhook names links env2 body2 sig2 w1 = (resp2, w2)"
  shows "event_id ev \<in> set (loadProcessedEvents w1) \<and>
         resp2 = Response 200 (Json_received (Some ''already_processed'')) \<and>
         w2 = emit [ReadProcessedEvents] w1 \<and>
         (\<exists>es. effects w2 = effects w @ es \<and>
               dispatches es = (if event_type ev = ''checkout.session.completed'' \<and>
                                   notifies names links env1 (event_object ev) then 1 else 0) \<and>
               posts es \<le> 3) \<and>
         failed_count w2 \<le> failed_count w + 1"
proof -
  from first_summary[OF first r1]
  obtain es where mem: "event_id ev \<in> set (loadProcessedEvents w1)"
    and es: "effects w1 = effects w @ es"
    and d: "dispatches es = (if event_type ev = ''checkout.session.completed'' \<and>
                                   notifies names links env1 (event_object ev) then 1 else 0)"
    and p: "posts es \<le> 3"
    and f: "failed_count w1 \<le> failed_count w + dispatches es"
    by blast
  from mem again(2) have "event_id ev2 \<in> set (loadProcessedEvents w1)" by simp
  from redelivery[OF again(1) this, of names links] r2
  have resp2: "resp2 = Response 200 (Json_received (Some ''already_processed''))"
    and w2: "w2 = emit [ReadProcessedEvents] w1"
    by simp_all
  have e2: "effects w2 = effects w @ (es @ [ReadProcessedEvents])"
    by (simp add: w2 emit_def es)
  have c: "dispatches (es @ [ReadProcessedEvents]) = dispatches es"
          "posts (es @ [ReadProcessedEvents]) = posts es"
    by (simp_all add: dispatches_def posts_def)
  have "failed_count w2 = failed_count w1" by (simp add: w2 emit_def failed_count_def)
  with f d have f2: "failed_count w2 \<le> failed_count w + 1" by (simp split: if_splits)
  have "\<exists>es. effects w2 = effects w @ es \<and>
               dispatches es = (if event_type ev = ''checkout.session.completed'' \<and>
                                   notifies names links env1 (event_object ev) then 1 else 0) \<and>
               posts es \<le> 3"
    using e2 c d p by (intro exI[of _ "es @ [ReadProcessedEvents]"]) simp
  with mem resp2 w2 f2 show ?thesis by blast
qed

lemma collect_keys_absent:
  assumes "\<forall>p\<in>set ids. object_literal names p = Absent \<and> object_literal links p = Absent"
  shows "collect_keys names links ids acc = Inr acc"
  using assms
proof (induction ids arbitrary: acc)
  case Nil
  then show ?case by simp
next
  case (Cons p ids)
  obtain pn mk where acc: "acc = (pn, mk)" by (cases acc)
  from Cons show ?case by (simp add: acc Let_def)
qed

lemma deliveries_redelivered:
  assumes "\<forall>d\<in>set ds. \<exists>ev2. constructEvent (fst d) (fst (snd d)) (snd (snd d)) = Inr ev2 \<and>
             event_id ev2 \<in> set (loadProcessedEvents w)"
  shows "deliveries names links ds w =
           (replicate (length ds) (Response 200 (Json_received (Some ''already_processed''))),
            emit (replicate (length ds) ReadProcessedEvents) w)"
  using assms
proof (induction ds arbitrary: w)
  case Nil
  then show ?case by (simp add: emit_def)
next
  case (Cons d ds)
  obtain env body sig where d: "d = (env, body, sig)" by (cases d)
  from Cons.prems d obtain ev2 where c: "constructEvent env body sig = Inr ev2"
    and m: "event_id ev2 \<in> set (loadProcessedEvents w)" by auto
  let ?w1 = "emit [ReadProcessedEvents] w"
  have "\<forall>d\<in>set ds. \<exists>ev2. constructEvent (fst d) (fst (snd d)) (snd (snd d)) = Inr ev2 \<and>
             event_id ev2 \<in> set (loadProcessedEvents ?w1)"
    using Cons.prems by (simp add: load_emit)
  from Cons.IH[OF this] show ?case
    by (simp add: d redelivery[OF c m] emit_emit replicate_append_same)
qed

text \<open>
  Claim C10. A verified completed-checkout event, not yet in the store, that has a
  buyer email and whose purchased price ids are in neither catalog table: the handler
  fetches the line items and commits the event identifier, with no dispatch, no POST
  and no failed-email entry, and answers \<open>received\<close>. Every later delivery of the
  same identifier is answered \<open>already_processed\<close> and only reads the store, so no
  notification is ever produced for the event.
\<close>

theorem unknown_items_commit_silently:
  assumes first: "constructEvent env1 body1 sig1 = Inr ev"
      and type: "event_type ev = ''checkout.session.completed''"
      and new: "event_id ev \<notin> set (loadProcessedEvents w)"
      and items: "listLineItems env1 (session_id (event_object ev)) = Inr lineItems"
      and email: "truthy (js_or (customer_details_email (event_object ev)) (customer_email (event_object ev)))"
      and unknown: "\<forall>p\<in>set (purchased_price_ids lineItems).
                      object_literal (PRODUCT_NAME_MAP cfg) p = Absent \<and>
                      object_literal (ZOOM_LINK_MAP cfg) p = Absent"
      and r1: "webhook cfg env1 body1 sig1 w = (resp1, w1)"
      and again: "\<forall>d\<in>set ds. \<exists>ev2. constructEvent (fst d) (fst (snd d)) (snd (snd d)) = Inr ev2 \<and>
                    event_id ev2 = event_id ev"
      and r2: "deliveries (PRODUCT_NAME_MAP cfg) (ZOOM_LINK_MAP cfg) ds w1 = (resps, w2)"
  shows "resp1 = Response 200 (Json_received None) \<and>
         effects w1 = effects w @ [ReadProcessedEvents, StripeListLineItems (session_id (event_object ev)),
                                   ReadProcessedEvents, WriteProcessedEvents] \<and>
         failed_emails_json w1 = failed_emails_json w \<and>
         processed_events_json w1 = Some (loadProcessedEvents w @ [event_id ev]) \<and>
         resps = replicate (length ds) (Response 200 (Json_received (Some ''already_processed''))) \<and>
         w2 = emit (replicate (length ds) ReadProcessedEvents) w1"
proof -
  let ?N = "PRODUCT_NAME_MAP cfg" and ?L = "ZOOM_LINK_MAP cfg"
  let ?w0 = "emit [ReadProcessedEvents] w"
  have "checkout_notification ?N ?L (purchased_price_ids lineItems) = Inr None"
    by (simp add: checkout_notification_def collect_keys_absent[OF unknown])
  then have quiet: "\<not> notifies ?N ?L env1 (event_object ev)"
    by (simp add: notifies_def items)
  have h: "handleCheckoutCompleted ?N ?L env1 (event_object ev) ?w0 =
             (None, emit [StripeListLineItems (session_id (event_object ev))] ?w0)"
    using handle_quiet[OF quiet, of ?w0] \<open>checkout_notification ?N ?L (purchased_price_ids lineItems) = Inr None\<close>
    by (simp add: handleCheckoutCompleted_def items email Let_def)
  from first_delivery[OF first new, of ?N ?L] r1
  have resp1: "resp1 = Response 200 (Json_received None)"
    and w1: "w1 = saveProcessedEvent (event_id ev)
                    (emit [StripeListLineItems (session_id (event_object ev))] ?w0)"
    by (simp_all add: webhook_def type h)
  have eff: "effects w1 = effects w @ [ReadProcessedEvents, StripeListLineItems (session_id (event_object ev)),
                                   ReadProcessedEvents, WriteProcessedEvents]"
    by (simp add: w1 saveProcessedEvent_def emit_def Let_def)
  have failed: "failed_emails_json w1 = failed_emails_json w"
    by (simp add: w1 saveProcessedEvent_def emit_def Let_def)
  have stored: "processed_events_json w1 = Some (loadProcessedEvents w @ [event_id ev])"
    using new by (simp add: w1 saveProcessedEvent_def emit_emit load_emit Let_def set_add_def) (simp add: emit_def)
  have mem: "event_id ev \<in> set (loadProcessedEvents w1)"
    unfolding w1 by (rule load_saved)
  have "\<forall>d\<in>set ds. \<exists>ev2. constructEvent (fst d) (fst (snd d)) (snd (snd d)) = Inr ev2 \<and>
             event_id ev2 \<in> set (loadProcessedEvents w1)"
    using again mem by metis
  from deliveries_redelivered[OF this, of ?N ?L] r2
  have "resps = replicate (length ds) (Response 200 (Json_received (Some ''already_processed'')))"
    and "w2 = emit (replicate (length ds) ReadProcessedEvents) w1"
    by simp_all
  with resp1 eff failed stored show ?thesis by blast
qed

theorem webhook_idempotent_witness:
  "fst (stripe_webhook (PRODUCT_NAME_MAP demo_config) (ZOOM_LINK_MAP demo_config)
          (demo_env transport_third [item ''price_arch'']) ''{}'' good_sig new_world) =
     Response 200 (Json_received None) \<and>
   fst (stripe_webhook (PRODUCT_NAME_MAP demo_config) (ZOOM_LINK_MAP demo_config)
          (demo_env transport_down [item ''price_arch'']) ''{}'' good_sig
          (snd (stripe_webhook (PRODUCT_NAME_MAP demo_config) (ZOOM_LINK_MAP demo_config)
                  (demo_env transport_third [item ''price_arch'']) ''{}'' good_sig new_world))) =
     Response 200 (Json_received (Some ''already_processed'')) \<and>
   dispatches (effects (snd (stripe_webhook (PRODUCT_NAME_MAP demo_config) (ZOOM_LINK_MAP demo_config)
          (demo_env transport_down [item ''price_arch'']) ''{}'' good_sig
          (snd (stripe_webhook (PRODUCT_NAME_MAP demo_config) (ZOOM_LINK_MAP demo_config)
                  (demo_env transport_third [item ''price_arch'']) ''{}'' good_sig new_world))))) = 1"
proof -
  let ?N = "PRODUCT_NAME_MAP demo_config" and ?L = "ZOOM_LINK_MAP demo_config"
  let ?env1 = "demo_env transport_third [item ''price_arch'']"
  let ?env2 = "demo_env transport_down [item ''price_arch'']"
  let ?first = "stripe_webhook ?N ?L ?env1 ''{}'' good_sig new_world"
  let ?second = "stripe_webhook ?N ?L ?env2 ''{}'' good_sig (snd ?first)"
  have c1: "constructEvent ?env1 ''{}'' good_sig = Inr demo_event"
    and c2: "constructEvent ?env2 ''{}'' good_sig = Inr demo_event"
    by (simp_all add: demo_env_def good_sig_def)
  have new: "event_id demo_event \<notin> set (loadProcessedEvents new_world)"
    by (simp add: loadProcessedEvents_def new_world_def new_Set_def)
  have i: "listLineItems ?env1 (session_id demo_session) = Inr [item ''price_arch'']"
    by (simp add: demo_env_def)
  have e: "js_or (customer_details_email demo_session) (customer_email demo_session) = Some ''Buyer@example.com''"
    by (simp add: demo_session_def js_or_def truthy_def)
  have ne: "''Buyer@example.com'' \<noteq> []" by simp
  have t: "transport ?env1 = transport_third" by (simp add: demo_env_def)
  have ty: "event_type demo_event = ''checkout.session.completed''" "event_object demo_event = demo_session"
    by (simp_all add: demo_event_def)
  have f: "fst ?first = Response 200 (Json_received None)"
    unfolding first_delivery[OF c1 new] ty
    by (simp add: handle_dispatch[OF i e ne demo_note] t sendEmailWithRetry_3 third split_beta)
  then have r1: "?first = (Response 200 (Json_received None), snd ?first)"
    by (metis prod.collapse)
  have r2: "?second = (fst ?second, snd ?second)" by simp
  have n: "notifies ?N ?L ?env1 (event_object demo_event)"
    by (simp add: notifies_def ty i e truthy_def demo_note)
  from webhook_idempotent[OF c1 c2 refl r1 r2] n ty
  have "fst ?second = Response 200 (Json_received (Some ''already_processed''))"
    and "\<exists>es. effects (snd ?second) = effects new_world @ es \<and> dispatches es = 1"
    by auto
  then show ?thesis using f by (auto simp: new_world_def)
qed

theorem unknown_items_commit_silently_witness:
  "fst (webhook demo_config (demo_env transport_down [item ''price_other'']) ''{}'' good_sig new_world) =
     Response 200 (Json_received None) \<and>
   processed_events_json (snd (webhook demo_config (demo_env transport_down [item ''price_other''])
                                 ''{}'' good_sig new_world)) = Some [''evt_1''] \<and>
   fst (deliveries (PRODUCT_NAME_MAP demo_config) (ZOOM_LINK_MAP demo_config)
          [(demo_env transport_down [item ''price_arch''], ''{}'', good_sig),
           (demo_env transport_third [item ''price_other''], ''{}'', good_sig)]
          (snd (webhook demo_config (demo_env transport_down [item ''price_other'']) ''{}'' good_sig new_world))) =
     [Response 200 (Json_received (Some ''already_processed'')),
      Response 200 (Json_received (Some ''already_processed''))] \<and>
   posts (effects (snd (deliveries (PRODUCT_NAME_MAP demo_config) (ZOOM_LINK_MAP demo_config)
          [(demo_env transport_down [item ''price_arch''], ''{}'', good_sig),
           (demo_env transport_third [item ''price_other''], ''{}'', good_sig)]
          (snd (webhook demo_config (demo_env transport_down [item ''price_other'']) ''{}'' good_sig new_world))))) = 0"
proof -
  let ?N = "PRODUCT_NAME_MAP demo_config" and ?L = "ZOOM_LINK_MAP demo_config"
  let ?env1 = "demo_env transport_down [item ''price_other'']"
  let ?ds = "[(demo_env transport_down [item ''price_arch''], ''{}'', good_sig),
              (demo_env transport_third [item ''price_other''], ''{}'', good_sig)]"
  let ?first = "webhook demo_config ?env1 ''{}'' good_sig new_world"
  let ?rest = "deliveries ?N ?L ?ds (snd ?first)"
  have c1: "constructEvent ?env1 ''{}'' good_sig = Inr demo_event"
    by (simp add: demo_env_def good_sig_def)
  have ty: "event_type demo_event = ''checkout.session.completed''"
    by (simp add: demo_event_def)
  have new: "event_id demo_event \<notin> set (loadProcessedEvents new_world)"
    by (simp add: loadProcessedEvents_def new_world_def new_Set_def)
  have i: "listLineItems ?env1 (session_id (event_object demo_event)) = Inr [item ''price_other'']"
    by (simp add: demo_env_def)
  have e: "truthy (js_or (customer_details_email (event_object demo_event)) (customer_email (event_object demo_event)))"
    by (simp add: demo_event_def demo_session_def js_or_def truthy_def)
  have u: "\<forall>p\<in>set (purchased_price_ids [item ''price_other'']).
             object_literal ?N p = Absent \<and> object_literal ?L p = Absent"
    by (simp add: purchased_price_ids_def item_def truthy_def or_empty_def object_literal_def
          PRODUCT_NAME_MAP_def ZOOM_LINK_MAP_def demo_config_def prop_key_def object_prototype_names_def)
  have r1: "?first = (fst ?first, snd ?first)" by simp
  have a: "\<forall>d\<in>set ?ds. \<exists>ev2. constructEvent (fst d) (fst (snd d)) (snd (snd d)) = Inr ev2 \<and>
                    event_id ev2 = event_id demo_event"
    by (simp add: demo_env_def good_sig_def)
  have r2: "?rest = (fst ?rest, snd ?rest)" by simp
  note T = unknown_items_commit_silently[OF c1 ty new i e u r1 a r2]
  have l: "loadProcessedEvents new_world = []"
    by (simp add: loadProcessedEvents_def new_world_def new_Set_def)
  have "fst ?first = Response 200 (Json_received None)" using T by blast
  moreover have "processed_events_json (snd ?first) = Some [''evt_1'']"
    using T by (simp add: l demo_event_def)
  moreover have "fst ?rest = [Response 200 (Json_received (Some ''already_processed'')),
      Response 200 (Json_received (Some ''already_processed''))]"
    using T by (simp add: numeral_2_eq_2)
  moreover have "posts (effects (snd ?rest)) = 0"
    using T by (simp add: emit_def posts_def new_world_def)
  ultimately show ?thesis by blast
qed

section \<open>Properties of the entitlement resolver\<close>

lemma call_of_logged [simp]: "call_of (logged c r) = c"
  by (cases r) (simp_all add: logged_def)

lemma threw_logged [simp]: "threw (logged c r) = (\<exists>e. r = Inl e)"
  by (cases r) (simp_all add: logged_def)

lemma fold_set_add_all: "fold set_add ALL_SESSION_KEYS [] = ALL_SESSION_KEYS"
  by (simp add: ALL_SESSION_KEYS_def set_add_def)

lemma scan_items_empty:
  "scan_items items [] =
     (if list_ex (\<lambda>item. price_product item = Some CIRCLE_PRODUCT_ID) items then ALL_SESSION_KEYS else [])"
  by (induction items) (simp_all add: fold_set_add_all)

lemma scan_subscriptions_empty:
  "scan_subscriptions subscriptions [] = (if circle_member subscriptions then ALL_SESSION_KEYS else [])"
  by (induction subscriptions)
     (simp_all add: circle_member_def scan_items_empty Let_def ALL_SESSION_KEYS_def)

lemma scan_customers_found:
  assumes "\<forall>c'\<in>set pre. \<exists>subs. subscriptions_list env (customer_id c') = Inr subs \<and> \<not> circle_member subs"
      and "subscriptions_list env (customer_id c) = Inr subs" "circle_member subs"
  shows "scan_customers env (pre @ c # post) ([], calls) =
           (None, ALL_SESSION_KEYS,
            calls @ map (\<lambda>c. Returned (SubscriptionsList (customer_id c))) (pre @ [c]))"
  using assms
proof (induction pre arbitrary: calls)
  case Nil
  then show ?case
    by (simp add: Let_def scan_subscriptions_empty logged_def ALL_SESSION_KEYS_def)
next
  case (Cons a pre)
  from Cons.prems obtain s where s: "subscriptions_list env (customer_id a) = Inr s" "\<not> circle_member s"
    by auto
  have "\<forall>c'\<in>set pre. \<exists>subs. subscriptions_list env (customer_id c') = Inr subs \<and> \<not> circle_member subs"
    using Cons.prems by simp
  from Cons.IH[OF this Cons.prems(2,3)] s show ?case
    by (simp add: Let_def scan_subscriptions_empty logged_def)
qed

lemma filter_all_keys: "filter (\<lambda>k. k \<in> set ALL_SESSION_KEYS) ALL_SESSION_KEYS = ALL_SESSION_KEYS"
  by simp

lemma resolve_found:
  assumes "customers_list env email = Inr (pre @ c # post)"
      and "\<forall>c'\<in>set pre. \<exists>subs. subscriptions_list env (customer_id c') = Inr subs \<and> \<not> circle_member subs"
      and "subscriptions_list env (customer_id c) = Inr subs" "circle_member subs"
  shows "resolve archive env email =
           (Page 200 (ArchiveVideoPage ALL_SESSION_KEYS),
            Returned (CustomersList email) #
              map (\<lambda>c. Returned (SubscriptionsList (customer_id c))) (pre @ [c]))"
proof -
  have ch: "subscription_channel env email =
          (pre @ c # post, ALL_SESSION_KEYS,
           Returned (CustomersList email) # map (\<lambda>c. Returned (SubscriptionsList (customer_id c))) (pre @ [c]))"
    using assms(1) scan_customers_found[OF assms(2-4), of post "[Returned (CustomersList email)]"]
    by (simp add: subscription_channel_def Let_def logged_def)
  have ne: "length ALL_SESSION_KEYS \<noteq> 0" by (simp add: ALL_SESSION_KEYS_def)
  show ?thesis
    unfolding resolve_def ch using ne by (simp add: Let_def filter_all_keys del: map_append)
qed

lemma slt_append: "sessions_list_threw (xs @ ys) = (sessions_list_threw xs \<or> sessions_list_threw ys)"
  by (simp add: sessions_list_threw_def list_ex_iff) blast

lemma slt_single: "sessions_list_threw [x] = (threw x \<and> is_sessions_list (call_of x))"
  by (simp add: sessions_list_threw_def)

lemma scan_customers_slt:
  "sessions_list_threw (snd (snd (scan_customers env cs (keys, calls)))) = sessions_list_threw calls"
  by (induction cs arbitrary: keys calls)
     (simp_all add: Let_def slt_append slt_single split: sum.splits)

lemma subscription_channel_slt:
  "\<not> sessions_list_threw (snd (snd (subscription_channel env email)))"
  by (simp add: subscription_channel_def Let_def split_beta scan_customers_slt slt_single
        split: sum.splits)

lemma scan_sessions_slt:
  "sessions_list_threw (snd (scan_sessions archive env keep ss (keys, calls))) = sessions_list_threw calls"
  by (induction ss arbitrary: keys calls)
     (simp_all add: Let_def slt_append slt_single split: sum.splits)

lemma purchase_channel_slt:
  "sessions_list_threw (snd (snd (purchase_channel archive env cs (keys, calls)))) =
     (sessions_list_threw calls \<or> fst (purchase_channel archive env cs (keys, calls)) \<noteq> None)"
proof (induction cs arbitrary: keys calls)
  case Nil
  then show ?case by simp
next
  case (Cons c cs)
  show ?case
  proof (cases "sessions_list env (Some (customer_id c))")
    case (Inl e)
    then show ?thesis by (simp add: Let_def slt_append slt_single)
  next
    case (Inr sessions)
    let ?calls1 = "calls @ [logged (SessionsList (Some (customer_id c))) (sessions_list env (Some (customer_id c)))]"
    obtain k2 c2 where sc: "scan_sessions archive env paid sessions (keys, ?calls1) = (k2, c2)"
      by (cases "scan_sessions archive env paid sessions (keys, ?calls1)")
    have "sessions_list_threw c2 = sessions_list_threw ?calls1"
      using scan_sessions_slt[of archive env paid sessions keys ?calls1] sc by simp
    also have "\<dots> = sessions_list_threw calls"
      by (simp add: slt_append slt_single Inr)
    finally have c2: "sessions_list_threw c2 = sessions_list_threw calls" .
    show ?thesis
      using Cons.IH[of k2 c2] sc c2 by (simp add: Let_def Inr)
  qed
qed

lemma guest_channel_slt:
  "sessions_list_threw (snd (snd (guest_channel archive env email (keys, calls)))) =
     (sessions_list_threw calls \<or> fst (guest_channel archive env email (keys, calls)) \<noteq> None)"
  by (simp add: guest_channel_def Let_def split_beta scan_sessions_slt slt_append slt_single
        split: sum.splits)

lemma resolve_500_iff:
  "(fst (resolve archive env email) = Page 500 (ArchiveErrorPage ServerError)) =
     sessions_list_threw (snd (resolve archive env email))"
proof -
  obtain cs k1 c1 where ch: "subscription_channel env email = (cs, k1, c1)"
    by (cases "subscription_channel env email") auto
  have n1: "\<not> sessions_list_threw c1"
    using subscription_channel_slt[of env email] ch by simp
  obtain t2 k2 c2 where pc: "purchase_channel archive env cs (k1, c1) = (t2, k2, c2)"
    by (cases "purchase_channel archive env cs (k1, c1)") auto
  have s2: "sessions_list_threw c2 = (t2 \<noteq> None)"
    using purchase_channel_slt[of archive env cs k1 c1] pc n1 by simp
  obtain t3 k3 c3 where gc: "guest_channel archive env email (k2, c2) = (t3, k3, c3)"
    by (cases "guest_channel archive env email (k2, c2)") auto
  have s3: "sessions_list_threw c3 = (sessions_list_threw c2 \<or> t3 \<noteq> None)"
    using guest_channel_slt[of archive env email k2 c2] gc by simp
  show ?thesis
  proof (cases "k1 = []")
    case False
    then show ?thesis by (simp add: resolve_def ch Let_def n1)
  next
    case k1: True
    have pc1: "purchase_channel archive env cs ([], c1) = (t2, k2, c2)" using pc k1 by simp
    show ?thesis
    proof (cases "t2 = None")
      case False
      with s2 show ?thesis by (auto simp: resolve_def ch k1 pc1 Let_def)
    next
      case t2: True
      show ?thesis
      proof (cases "k2 = [] \<and> cs = []")
        case False
        with t2 s2 show ?thesis by (auto simp: resolve_def ch k1 pc1 Let_def)
      next
        case True
        then have k2: "k2 = []" and cs: "cs = []" by simp_all
        have c2: "c2 = c1" using pc1 cs by simp
        have gc1: "guest_channel archive env email ([], c1) = (t3, k3, c3)" using gc k2 c2 by simp
        have ch1: "subscription_channel env email = ([], [], c1)" using ch k1 cs by simp
        from s3 n1 have "sessions_list_threw c3 = (t3 \<noteq> None)" by (simp add: c2)
        then show ?thesis by (auto simp: resolve_def ch1 gc1 Let_def)
      qed
    qed
  qed
qed

lemma resolve_down:
  assumes "customers_list env email = Inl e1" "sessions_list env None = Inl e2"
  shows "resolve archive env email =
           (Page 500 (ArchiveErrorPage ServerError),
            [Threw (CustomersList email), Threw (SessionsList None)])"
  using assms
  by (simp add: resolve_def subscription_channel_def guest_channel_def Let_def logged_def)

lemma buyer_email: "toLowerCase (trim (or_empty (body_email buyer_request))) = ''buyer@example.com''"
  unfolding buyer_request_def by code_simp

lemma buyer_valid: "email_regex_test ''buyer@example.com''"
  by code_simp

lemma buyer_key: "rate_key ''buyer@example.com'' = ''buyer@example.com''"
  by code_simp

lemma buyer_session_email: "session_email demo_session = ''buyer@example.com''"
  unfolding demo_session_def by code_simp

lemma buyer_allowed:
  "checkArchiveRateLimit maxRequests_index 0 ''buyer@example.com'' Map.empty =
     (True, [''buyer@example.com'' \<mapsto> [0]])"
  by (simp add: checkArchiveRateLimit_def buyer_key stamps_def maxRequests_index_def Let_def)

lemma buyer_allowed_30:
  "checkArchiveRateLimit maxRequests_part_000 0 ''buyer@example.com'' Map.empty =
     (True, [''buyer@example.com'' \<mapsto> [0]])"
  by (simp add: checkArchiveRateLimit_def buyer_key stamps_def maxRequests_part_000_def Let_def)

lemma archive_image: "object_literal (ARCHIVE_SESSION_MAP demo_config) ''price_image'' = Own [''A'', ''B'', ''D'', ''F'']"
  by (simp add: object_literal_def ARCHIVE_SESSION_MAP_def demo_config_def prop_key_def)

lemma verify_buyer:
  "archive_verify demo_config env 0 buyer_request Map.empty =
     (fst (resolve (ARCHIVE_SESSION_MAP demo_config) env ''buyer@example.com''),
      [''buyer@example.com'' \<mapsto> [0]],
      snd (resolve (ARCHIVE_SESSION_MAP demo_config) env ''buyer@example.com''))"
  by (simp add: archive_verify_def verify_email_def buyer_email buyer_valid buyer_allowed split_beta Let_def)

text \<open>
  The claim C1 as stated fails on two requests. For a registered buyer the
  subscription list throws and the only line-item fetch throws; for a guest buyer the
  customer lookup throws and the only line-item fetch throws. Each channel that runs
  meets an error and no call returns entitlement data, yet the answer is the page
  \<open>no purchase found\<close> with status 200. The same purchases with a provider that
  answers give the video page.
\<close>

theorem swallowed_errors_counterexample:
  "archive_verify demo_config flaky_provider 0 buyer_request Map.empty =
     (Page 200 (ArchiveErrorPage NotFound), [''buyer@example.com'' \<mapsto> [0]],
      [Returned (CustomersList ''buyer@example.com''), Threw (SubscriptionsList ''cus_1''),
       Returned (SessionsList (Some ''cus_1'')), Threw (ListLineItems ''cs_1'')]) \<and>
   fst (archive_verify demo_config healthy_provider 0 buyer_request Map.empty) =
     Page 200 (ArchiveVideoPage [''A'', ''B'', ''D'', ''F'']) \<and>
   archive_verify demo_config flaky_guest_provider 0 buyer_request Map.empty =
     (Page 200 (ArchiveErrorPage NotFound), [''buyer@example.com'' \<mapsto> [0]],
      [Threw (CustomersList ''buyer@example.com''), Returned (SessionsList None),
       Threw (ListLineItems ''cs_1'')]) \<and>
   fst (archive_verify demo_config healthy_guest_provider 0 buyer_request Map.empty) =
     Page 200 (ArchiveVideoPage [''A'', ''B'', ''D'', ''F''])"
proof -
  have pd: "paid demo_session" by (simp add: paid_def demo_session_def)
  have sid: "session_id demo_session = ''cs_1''" by (simp add: demo_session_def)
  have it: "truthy (price_id (item ''price_image''))" "or_empty (price_id (item ''price_image'')) = ''price_image''"
    by (simp_all add: item_def truthy_def or_empty_def)
  have 1: "resolve (ARCHIVE_SESSION_MAP demo_config) flaky_provider ''buyer@example.com'' =
     (Page 200 (ArchiveErrorPage NotFound),
      [Returned (CustomersList ''buyer@example.com''), Threw (SubscriptionsList ''cus_1''),
       Returned (SessionsList (Some ''cus_1'')), Threw (ListLineItems ''cs_1'')])"
    by (simp add: resolve_def subscription_channel_def flaky_provider_def Let_def logged_def pd sid)
  have 2: "fst (resolve (ARCHIVE_SESSION_MAP demo_config) healthy_provider ''buyer@example.com'') =
     Page 200 (ArchiveVideoPage [''A'', ''B'', ''D'', ''F''])"
    by (simp add: resolve_def subscription_channel_def healthy_provider_def Let_def logged_def pd sid
          it archive_image set_add_def ALL_SESSION_KEYS_def)
  have 3: "resolve (ARCHIVE_SESSION_MAP demo_config) flaky_guest_provider ''buyer@example.com'' =
     (Page 200 (ArchiveErrorPage NotFound),
      [Threw (CustomersList ''buyer@example.com''), Returned (SessionsList None),
       Threw (ListLineItems ''cs_1'')])"
    by (simp add: resolve_def subscription_channel_def guest_channel_def flaky_guest_provider_def
          Let_def logged_def pd sid buyer_session_email)
  have 4: "fst (resolve (ARCHIVE_SESSION_MAP demo_config) healthy_guest_provider ''buyer@example.com'') =
     Page 200 (ArchiveVideoPage [''A'', ''B'', ''D'', ''F''])"
    by (simp add: resolve_def subscription_channel_def guest_channel_def healthy_guest_provider_def
          Let_def logged_def pd sid buyer_session_email it archive_image set_add_def ALL_SESSION_KEYS_def)
  show ?thesis by (simp add: verify_buyer 1 2 3 4)
qed

lemma verify_email_500_iff:
  "(fst (verify_email cfg n env now email limits []) = Page 500 (ArchiveErrorPage ServerError)) =
     sessions_list_threw (snd (snd (verify_email cfg n env now email limits [])))"
  using resolve_500_iff[of "ARCHIVE_SESSION_MAP cfg" env email]
  by (simp add: verify_email_def split_beta Let_def sessions_list_threw_def)

text \<open>
  Claim C1, as amended. The handler answers with the server-error page and status
  500, which differs from the page \<open>no purchase found\<close> (status 200), exactly when
  a checkout-session listing call of the request threw. In particular, for a valid
  email that passes the rate limit, when the customer lookup and the listing of
  recent sessions both throw (as they do when every provider call fails) the answer
  is the server-error page after these two calls.
\<close>

theorem provider_failure_surfaces:
  "(fst (archive_verify cfg env now req limits) = Page 500 (ArchiveErrorPage ServerError)) =
      sessions_list_threw (snd (snd (archive_verify cfg env now req limits))) \<and>
   (\<forall>email. email = toLowerCase (trim (or_empty (body_email req))) \<and> email \<noteq> [] \<and>
       email_regex_test email \<and> fst (checkArchiveRateLimit maxRequests_index now email limits) \<and>
       (\<exists>e. customers_list env email = Inl e) \<and> (\<exists>e. sessions_list env None = Inl e) \<longrightarrow>
       fst (archive_verify cfg env now req limits) = Page 500 (ArchiveErrorPage ServerError) \<and>
       snd (snd (archive_verify cfg env now req limits)) =
         [Threw (CustomersList email), Threw (SessionsList None)])"
proof -
  have a: "(fst (archive_verify cfg env now req limits) = Page 500 (ArchiveErrorPage ServerError)) =
      sessions_list_threw (snd (snd (archive_verify cfg env now req limits)))"
    by (simp add: archive_verify_def Let_def verify_email_500_iff)
  have b: "fst (archive_verify cfg env now req limits) = Page 500 (ArchiveErrorPage ServerError) \<and>
       snd (snd (archive_verify cfg env now req limits)) =
         [Threw (CustomersList email), Threw (SessionsList None)]"
    if h: "email = toLowerCase (trim (or_empty (body_email req)))" "email \<noteq> []"
       "email_regex_test email" "fst (checkArchiveRateLimit maxRequests_index now email limits)"
       "\<exists>e. customers_list env email = Inl e" "\<exists>e. sessions_list env None = Inl e" for email
  proof -
    from h(5,6) obtain e1 e2 where "customers_list env email = Inl e1" "sessions_list env None = Inl e2"
      by blast
    from resolve_down[OF this, of "ARCHIVE_SESSION_MAP cfg"] h(2,3,4) show ?thesis
      by (simp add: archive_verify_def verify_email_def Let_def split_beta h(1)[symmetric])
  qed
  from a b show ?thesis by blast
qed

theorem provider_failure_surfaces_witness:
  "archive_verify demo_config provider_down 0 buyer_request Map.empty =
     (Page 500 (ArchiveErrorPage ServerError), [''buyer@example.com'' \<mapsto> [0]],
      [Threw (CustomersList ''buyer@example.com''), Threw (SessionsList None)]) \<and>
   Page 500 (ArchiveErrorPage ServerError) \<noteq> Page 200 (ArchiveErrorPage NotFound)"
proof -
  let ?r = "archive_verify demo_config provider_down 0 buyer_request Map.empty"
  have h: "''buyer@example.com'' = toLowerCase (trim (or_empty (body_email buyer_request))) \<and>
       ''buyer@example.com'' \<noteq> [] \<and> email_regex_test ''buyer@example.com'' \<and>
       fst (checkArchiveRateLimit maxRequests_index 0 ''buyer@example.com'' Map.empty) \<and>
       (\<exists>e. customers_list provider_down ''buyer@example.com'' = Inl e) \<and>
       (\<exists>e. sessions_list provider_down None = Inl e)"
    by (simp add: buyer_email buyer_valid buyer_allowed provider_down_def)
  from provider_failure_surfaces[of demo_config provider_down 0 buyer_request Map.empty] h
  have "fst ?r = Page 500 (ArchiveErrorPage ServerError) \<and>
        snd (snd ?r) = [Threw (CustomersList ''buyer@example.com''), Threw (SessionsList None)]"
    by blast
  moreover have "fst (snd ?r) = [''buyer@example.com'' \<mapsto> [0]]"
    by (simp add: verify_buyer)
  ultimately show ?thesis by (simp add: prod_eq_iff)
qed

text \<open>
  Claim C4. For a valid email that passes the rate limit: when the customer lookup
  answers and the scan of the customers reaches a customer whose list of active
  subscriptions has an item of the circle product (the lists of the customers before
  were fetched and have none), the answer is the video page with the full key list
  \<open>A, B, C, D, E1, E2, F\<close>, and the calls made are the customer lookup and the
  subscription lists up to that customer: no checkout-session list and no line-item
  fetch.
\<close>

theorem subscription_short_circuit:
  assumes email: "email = toLowerCase (trim (or_empty (body_email req)))" "email \<noteq> []"
                 "email_regex_test email"
      and allowed: "checkArchiveRateLimit maxRequests_index now email limits = (True, limits1)"
      and customers: "customers_list env email = Inr (pre @ c # post)"
      and before: "\<forall>c'\<in>set pre. \<exists>subs. subscriptions_list env (customer_id c') = Inr subs \<and>
                     \<not> circle_member subs"
      and member: "subscriptions_list env (customer_id c) = Inr subs" "circle_member subs"
  shows "archive_verify cfg env now req limits =
           (Page 200 (ArchiveVideoPage [''A'', ''B'', ''C'', ''D'', ''E1'', ''E2'', ''F'']), limits1,
            Returned (CustomersList email) #
              map (\<lambda>c. Returned (SubscriptionsList (customer_id c))) (pre @ [c])) \<and>
         (\<forall>x\<in>set (snd (snd (archive_verify cfg env now req limits))).
            call_of x = CustomersList email \<or> (\<exists>cid. call_of x = SubscriptionsList cid))"
proof -
  have r: "archive_verify cfg env now req limits =
           (Page 200 (ArchiveVideoPage ALL_SESSION_KEYS), limits1,
            Returned (CustomersList email) #
              map (\<lambda>c. Returned (SubscriptionsList (customer_id c))) (pre @ [c]))"
    using email(2,3) allowed
    by (simp add: archive_verify_def verify_email_def Let_def email(1)[symmetric]
          resolve_found[OF customers before member] del: map_append)
  have "\<forall>x\<in>set (Returned (CustomersList email) #
              map (\<lambda>c. Returned (SubscriptionsList (customer_id c))) (pre @ [c])).
            call_of x = CustomersList email \<or> (\<exists>cid. call_of x = SubscriptionsList cid)"
    by auto
  with r show ?thesis by (simp add: ALL_SESSION_KEYS_def del: map_append)
qed

theorem subscription_short_circuit_witness:
  "archive_verify demo_config member_provider 0 buyer_request Map.empty =
     (Page 200 (ArchiveVideoPage [''A'', ''B'', ''C'', ''D'', ''E1'', ''E2'', ''F'']),
      [''buyer@example.com'' \<mapsto> [0]],
      [Returned (CustomersList ''buyer@example.com''), Returned (SubscriptionsList ''cus_1''),
       Returned (SubscriptionsList ''cus_2'')])"
proof -
  have e: "''buyer@example.com'' = toLowerCase (trim (or_empty (body_email buyer_request)))"
    by (simp add: buyer_email)
  have ne: "''buyer@example.com'' \<noteq> []" by simp
  have cs: "customers_list member_provider ''buyer@example.com'' = Inr ([Customer ''cus_1''] @ Customer ''cus_2'' # [])"
    by (simp add: member_provider_def)
  have b: "\<forall>c'\<in>set [Customer ''cus_1'']. \<exists>subs. subscriptions_list member_provider (customer_id c') = Inr subs \<and>
                     \<not> circle_member subs"
    by (simp add: member_provider_def circle_member_def)
  have m: "subscriptions_list member_provider (customer_id (Customer ''cus_2'')) = Inr [Subscription [circle_item]]"
    by (simp add: member_provider_def)
  have cm: "circle_member [Subscription [circle_item]]"
    by (simp add: circle_member_def circle_item_def)
  from subscription_short_circuit[OF e ne buyer_valid buyer_allowed cs b m cm, of demo_config]
  show ?thesis by simp
qed

lemma nv_append: "no_verify (xs @ ys) = (no_verify xs \<and> no_verify ys)"
  by (simp add: no_verify_def list_ex_iff) blast

lemma nv_single: "no_verify [x] = (\<not> is_verify (call_of x))"
  by (simp add: no_verify_def)

lemma scan_customers_nv:
  "no_verify (snd (snd (scan_customers env cs (keys, calls)))) = no_verify calls"
  by (induction cs arbitrary: keys calls)
     (simp_all add: Let_def nv_append nv_single split: sum.splits)

lemma subscription_channel_nv: "no_verify (snd (snd (subscription_channel env email)))"
  by (simp add: subscription_channel_def Let_def split_beta scan_customers_nv nv_single
        split: sum.splits)

lemma scan_sessions_nv:
  "no_verify (snd (scan_sessions archive env keep ss (keys, calls))) = no_verify calls"
  by (induction ss arbitrary: keys calls)
     (simp_all add: Let_def nv_append nv_single split: sum.splits)

lemma purchase_channel_nv:
  "no_verify (snd (snd (purchase_channel archive env cs (keys, calls)))) = no_verify calls"
proof (induction cs arbitrary: keys calls)
  case Nil
  then show ?case by simp
next
  case (Cons c cs)
  show ?case
  proof (cases "sessions_list env (Some (customer_id c))")
    case (Inl e)
    then show ?thesis by (simp add: Let_def nv_append nv_single)
  next
    case (Inr sessions)
    let ?calls1 = "calls @ [logged (SessionsList (Some (customer_id c))) (sessions_list env (Some (customer_id c)))]"
    obtain k2 c2 where sc: "scan_sessions archive env paid sessions (keys, ?calls1) = (k2, c2)"
      by (cases "scan_sessions archive env paid sessions (keys, ?calls1)")
    have "no_verify c2 = no_verify ?calls1"
      using scan_sessions_nv[of archive env paid sessions keys ?calls1] sc by simp
    also have "\<dots> = no_verify calls"
      by (simp add: nv_append nv_single)
    finally have c2: "no_verify c2 = no_verify calls" .
    show ?thesis
      using Cons.IH[of k2 c2] sc c2 by (simp add: Let_def Inr)
  qed
qed

lemma guest_channel_nv:
  "no_verify (snd (snd (guest_channel archive env email (keys, calls)))) = no_verify calls"
  by (simp add: guest_channel_def Let_def split_beta scan_sessions_nv nv_append nv_single
        split: sum.splits)

lemma resolve_nv: "no_verify (snd (resolve archive env email))"
  by (simp add: resolve_def split_beta Let_def subscription_channel_nv purchase_channel_nv
        guest_channel_nv)

lemma verify_email_nv:
  "no_verify (snd (snd (verify_email cfg n env now email limits calls0))) = no_verify calls0"
  using resolve_nv[of "ARCHIVE_SESSION_MAP cfg" env email]
  by (simp add: verify_email_def split_beta Let_def nv_append)

text \<open>
  Claim C9. In the variant \<open>unnamed/part_000\<close>, a request without a
  \<open>firebaseToken\<close> field is handled for the email of the form field, trimmed and
  lower-cased, whether or not Firebase is configured: no token is verified, and for
  a valid email that passes the rate limit the answer and the calls are those of the
  resolution for that email. A token is verified only for a request that carries a
  non-empty token (and when Firebase is configured).
\<close>

theorem token_only_when_present:
  "(body_firebaseToken req = None \<longrightarrow>
      archive_verify_part_000 cfg FIREBASE_CONFIG env now req limits =
        verify_email cfg maxRequests_part_000 env now (toLowerCase (trim (or_empty (body_email req)))) limits [] \<and>
      no_verify (snd (snd (archive_verify_part_000 cfg FIREBASE_CONFIG env now req limits))) \<and>
      (\<forall>email. email = toLowerCase (trim (or_empty (body_email req))) \<and> email \<noteq> [] \<and>
          email_regex_test email \<and> fst (checkArchiveRateLimit maxRequests_part_000 now email limits) \<longrightarrow>
          (fst (archive_verify_part_000 cfg FIREBASE_CONFIG env now req limits),
           snd (snd (archive_verify_part_000 cfg FIREBASE_CONFIG env now req limits))) =
            resolve (ARCHIVE_SESSION_MAP cfg) env email)) \<and>
   (\<not> no_verify (snd (snd (archive_verify_part_000 cfg FIREBASE_CONFIG env now req limits))) \<longrightarrow>
      truthy (body_firebaseToken req) \<and> FIREBASE_CONFIG)"
proof -
  let ?r = "archive_verify_part_000 cfg FIREBASE_CONFIG env now req limits"
  let ?e = "toLowerCase (trim (or_empty (body_email req)))"
  have fallback: "?r = verify_email cfg maxRequests_part_000 env now ?e limits []"
    if "\<not> (truthy (body_firebaseToken req) \<and> FIREBASE_CONFIG)"
    by (simp only: archive_verify_part_000_def that if_False)
  have a: "?r = verify_email cfg maxRequests_part_000 env now ?e limits []"
    if "body_firebaseToken req = None"
    using that by (intro fallback) (simp add: truthy_def)
  have b: "no_verify (snd (snd ?r))" if "\<not> (truthy (body_firebaseToken req) \<and> FIREBASE_CONFIG)"
  proof -
    have "no_verify []" by (simp add: no_verify_def)
    then show ?thesis unfolding fallback[OF that] by (simp only: verify_email_nv)
  qed
  have c: "(fst ?r, snd (snd ?r)) = resolve (ARCHIVE_SESSION_MAP cfg) env email"
    if "body_firebaseToken req = None" "email = ?e" "email \<noteq> []" "email_regex_test email"
       "fst (checkArchiveRateLimit maxRequests_part_000 now email limits)" for email
    using that(3,4,5) unfolding a[OF that(1)] that(2)[symmetric]
    by (simp add: verify_email_def split_beta Let_def)
  have d: "no_verify (snd (snd ?r))" if "body_firebaseToken req = None"
    using that by (intro b) (simp add: truthy_def)
  show ?thesis using a b c d by blast
qed

theorem token_only_when_present_witness:
  "archive_verify_part_000 demo_config True token_provider 0 buyer_request Map.empty =
     (Page 200 (ArchiveErrorPage NotFound), [''buyer@example.com'' \<mapsto> [0]],
      [Returned (CustomersList ''buyer@example.com''), Returned (SessionsList None)]) \<and>
   snd (snd (archive_verify_part_000 demo_config True token_provider 0
               (buyer_request\<lparr>body_firebaseToken := Some ''id-token''\<rparr>) Map.empty)) =
     [Returned (VerifyIdToken ''id-token''), Returned (CustomersList ''verified@example.com''),
      Returned (SessionsList None)]"
proof -
  let ?r = "archive_verify_part_000 demo_config True token_provider 0 buyer_request Map.empty"
  let ?t = "archive_verify_part_000 demo_config True token_provider 0
               (buyer_request\<lparr>body_firebaseToken := Some ''id-token''\<rparr>) Map.empty"
  have none: "body_firebaseToken buyer_request = None" by (simp add: buyer_request_def)
  have h: "''buyer@example.com'' = toLowerCase (trim (or_empty (body_email buyer_request))) \<and>
       ''buyer@example.com'' \<noteq> [] \<and> email_regex_test ''buyer@example.com'' \<and>
       fst (checkArchiveRateLimit maxRequests_part_000 0 ''buyer@example.com'' Map.empty)"
    by (simp add: buyer_email buyer_valid buyer_allowed_30)
  have res: "resolve (ARCHIVE_SESSION_MAP demo_config) token_provider ''buyer@example.com'' =
      (Page 200 (ArchiveErrorPage NotFound),
       [Returned (CustomersList ''buyer@example.com''), Returned (SessionsList None)])"
    by (simp add: resolve_def subscription_channel_def guest_channel_def token_provider_def
          Let_def logged_def)
  from token_only_when_present[of buyer_request demo_config True token_provider 0 Map.empty] none h
  have 1: "(fst ?r, snd (snd ?r)) = resolve (ARCHIVE_SESSION_MAP demo_config) token_provider ''buyer@example.com''"
    and 2: "?r = verify_email demo_config maxRequests_part_000 token_provider 0
                   (toLowerCase (trim (or_empty (body_email buyer_request)))) Map.empty []"
    by blast+
  have 3: "fst (snd ?r) = [''buyer@example.com'' \<mapsto> [0]]"
    unfolding 2 by (simp add: verify_email_def buyer_email buyer_valid buyer_allowed_30 split_beta)
  have v: "toLowerCase ''verified@example.com'' = ''verified@example.com''"
      "email_regex_test ''verified@example.com''"
      "rate_key ''verified@example.com'' = ''verified@example.com''"
    by code_simp+
  have res2: "resolve (ARCHIVE_SESSION_MAP demo_config) token_provider ''verified@example.com'' =
      (Page 200 (ArchiveErrorPage NotFound),
       [Returned (CustomersList ''verified@example.com''), Returned (SessionsList None)])"
    by (simp add: resolve_def subscription_channel_def guest_channel_def token_provider_def
          Let_def logged_def)
  have 4: "snd (snd ?t) = [Returned (VerifyIdToken ''id-token''), Returned (CustomersList ''verified@example.com''),
      Returned (SessionsList None)]"
    by (simp add: archive_verify_part_000_def buyer_request_def truthy_def or_empty_def
          token_provider_def[THEN arg_cong, of verifyIdToken] logged_def v verify_email_def
          checkArchiveRateLimit_def stamps_def maxRequests_part_000_def Let_def res2 split_beta)
  from 1 res 3 4 show ?thesis by (simp add: prod_eq_iff)
qed

end
